theory Spec2Isabelle
  imports Complex_Main
begin

section \<open>Machine arithmetic of the target\<close>

text \<open>
  The firmware is built for the Arduino Mega 2560 (README, "Select: Tools > Board >
  Arduino Mega 2560"), an 8-bit AVR: \<^verbatim>\<open>int\<close> has 16 bits, \<^verbatim>\<open>long\<close> and
  \<^verbatim>\<open>unsigned long\<close> have 32 bits, \<^verbatim>\<open>double\<close> is the 32-bit binary float. Every C value is
  modelled as an \<open>int\<close> of HOL with the wrap-around of its type written out where the
  code computes it: \<open>int16\<close> is the two's complement reading of the low 16 bits (what
  avr-gcc's \<^verbatim>\<open>add\<close>/\<^verbatim>\<open>adc\<close> and \<^verbatim>\<open>mul\<close> sequences leave in an \<^verbatim>\<open>int\<close>, and what the
  conversion from a wider type keeps), \<open>long32\<close> the same for \<^verbatim>\<open>long\<close>, \<open>ulong32\<close> the
  value modulo \<open>2 ^ 32\<close> of an \<^verbatim>\<open>unsigned long\<close>.
\<close>

definition int16 :: "int \<Rightarrow> int" where
  "int16 x = (x + 32768) mod 65536 - 32768"

definition long32 :: "int \<Rightarrow> int" where
  "long32 x = (x + 2147483648) mod 4294967296 - 2147483648"

definition ulong32 :: "int \<Rightarrow> int" where
  "ulong32 x = x mod 4294967296"

text \<open>C's integer division truncates towards zero; HOL's \<open>div\<close> rounds down.\<close>

definition cdiv :: "int \<Rightarrow> int \<Rightarrow> int" where
  "cdiv a b = sgn a * sgn b * (\<bar>a\<bar> div \<bar>b\<bar>)"

text \<open>
  The conversion of a floating-point value to \<^verbatim>\<open>int\<close> drops the fraction. The float
  expressions of the firmware multiply an \<^verbatim>\<open>int\<close> by \<^verbatim>\<open>0.6\<close>, \<^verbatim>\<open>0.8\<close> or \<^verbatim>\<open>0.5\<close> and add
  or subtract an \<^verbatim>\<open>int\<close>; they are modelled in exact rational arithmetic. On the
  readings of the 10-bit converter (\<open>0 .. 1023\<close>) the binary float gives the same
  integer after the conversion: the exact results are multiples of \<open>1/5\<close> or \<open>1/2\<close>, the
  float constants \<^verbatim>\<open>0.6\<close> and \<^verbatim>\<open>0.8\<close> are rounded upwards, and a rounding error below
  \<open>1/100\<close> cannot carry a non-negative multiple of \<open>1/5\<close> across an integer.
\<close>

definition ftoi :: "rat \<Rightarrow> int" where
  "ftoi x = (if 0 \<le> x then \<lfloor>x\<rfloor> else \<lceil>x\<rceil>)"

text \<open>
  What the firmware can run into: a division by zero, and the conversion to \<^verbatim>\<open>int\<close> of
  the NaN that \<^verbatim>\<open>sqrt\<close> returns for a negative argument. Both are undefined in C++;
  the model stops with the fault.
\<close>

datatype fault = DivideByZero | NanToInt

section \<open>The interval averager\<close>

text \<open>
  The heart-rate and the breath-rate code hold the same loop over their ten interval
  slots (\<^verbatim>\<open>int sum = 0; int count = 0; for ... if (a[i] > 0) { sum += a[i]; count++; }\<close>)
  and the same two divisions after it. \<open>sum\<close> is an \<^verbatim>\<open>int\<close>: the addition wraps at 16
  bits. \<^verbatim>\<open>60000\<close> does not fit an \<^verbatim>\<open>int\<close>, so the second division is a \<^verbatim>\<open>long\<close> division
  whose quotient is cut to the \<^verbatim>\<open>int\<close> it is assigned to.
\<close>

fun sumCount :: "int list \<Rightarrow> int \<Rightarrow> int \<Rightarrow> int \<times> int" where
  "sumCount [] tot cnt = (tot, cnt)"
| "sumCount (x # xs) tot cnt =
     (if x > 0 then sumCount xs (int16 (tot + x)) (cnt + 1)
      else sumCount xs tot cnt)"

definition rateFrom :: "int list \<Rightarrow> int \<Rightarrow> fault + int" where
  "rateFrom intervals current =
     (case sumCount intervals 0 0 of
        (tot, cnt) \<Rightarrow>
          if cnt > 0 then
            (let avg = cdiv tot cnt
             in if avg = 0 then Inl DivideByZero
                else Inr (int16 (cdiv 60000 avg)))
          else Inr current)"

section \<open>Cardiac extractor\<close>

text \<open>
  \<^verbatim>\<open>struct ECGProcessor\<close>. The three processors each have a member \<^verbatim>\<open>bufferIndex\<close>; the
  record fields carry the processor's name in front to tell them apart. A buffer
  cursor starts at 0 and is only ever assigned \<^verbatim>\<open>(bufferIndex + 1) % BUFFER_SIZE\<close>, so
  it is a \<open>nat\<close>. The global instance is zero-initialised before its member
  initialisers run, so the arrays start as zeros.
\<close>

record ECGProcessor =
  ecgBuffer :: "int list"
  ecgBufferIndex :: nat
  lastPeakTime :: int
  rrIntervals :: "int list"
  rrIndex :: nat
  currentHeartRate :: int
  peakThreshold :: int
  signalMin :: int
  signalMax :: int
  leadOff :: bool
  inPeak :: bool
  peakValue :: int

definition ecgProcInit :: ECGProcessor where
  "ecgProcInit =
     \<lparr> ecgBuffer = replicate 100 0, ecgBufferIndex = 0, lastPeakTime = 0,
       rrIntervals = replicate 10 0, rrIndex = 0, currentHeartRate = 0,
       peakThreshold = 600, signalMin = 1023, signalMax = 0, leadOff = False,
       inPeak = False, peakValue = 0 \<rparr>"

text \<open>
  Lines 78-94: the sample enters the ring, the running minimum and maximum follow
  it, and when the cursor wraps to 0 the threshold and the band are recomputed.
\<close>

definition recalcThreshold :: "ECGProcessor \<Rightarrow> ECGProcessor" where
  "recalcThreshold s =
     (let rng = int16 (signalMax s - signalMin s);
          thr = int16 (ftoi (of_int (signalMin s) + of_int rng * (6 / 10)));
          mn = int16 (ftoi (of_int (signalMax s) - of_int rng * (8 / 10)));
          mx = int16 (ftoi (of_int mn + of_int rng * (8 / 10)))
      in s\<lparr>peakThreshold := thr, signalMin := mn, signalMax := mx\<rparr>)"

definition ecgTrack :: "int \<Rightarrow> ECGProcessor \<Rightarrow> ECGProcessor" where
  "ecgTrack rawValue s =
     (let s1 = s\<lparr>leadOff := False,
                  ecgBuffer := (ecgBuffer s)[ecgBufferIndex s := rawValue],
                  ecgBufferIndex := (ecgBufferIndex s + 1) mod 100\<rparr>;
          s2 = (if rawValue < signalMin s1 then s1\<lparr>signalMin := rawValue\<rparr> else s1);
          s3 = (if rawValue > signalMax s2 then s2\<lparr>signalMax := rawValue\<rparr> else s2)
      in if ecgBufferIndex s3 = 0 then recalcThreshold s3 else s3)"

text \<open>
  Lines 109-134, the falling edge of a peak: \<open>now\<close> is what \<^verbatim>\<open>millis()\<close> returns there.
  The difference of the two \<^verbatim>\<open>unsigned long\<close> values is cut to the \<^verbatim>\<open>int\<close>
  \<^verbatim>\<open>rrInterval\<close>.
\<close>

definition peakExit :: "int \<Rightarrow> ECGProcessor \<Rightarrow> fault + ECGProcessor" where
  "peakExit now s =
     (if lastPeakTime s > 0 then
        (let rrInterval = int16 (ulong32 (now - lastPeakTime s))
         in if rrInterval > 300 \<and> rrInterval < 2000 then
              (let ivs = (rrIntervals s)[rrIndex s := rrInterval]
               in case rateFrom ivs (currentHeartRate s) of
                    Inl f \<Rightarrow> Inl f
                  | Inr hr \<Rightarrow>
                      Inr (s\<lparr>rrIntervals := ivs, rrIndex := (rrIndex s + 1) mod 10,
                             currentHeartRate := hr, lastPeakTime := now\<rparr>))
            else Inr (s\<lparr>lastPeakTime := now\<rparr>))
      else Inr (s\<lparr>lastPeakTime := now\<rparr>))"

text \<open>
  \<^verbatim>\<open>processECGSample\<close>. \<open>loPlus\<close> and \<open>loMinus\<close> say that \<^verbatim>\<open>digitalRead\<close> of the lead-off
  pin returned 1.
\<close>

definition processECGSample ::
    "bool \<Rightarrow> bool \<Rightarrow> int \<Rightarrow> int \<Rightarrow> ECGProcessor \<Rightarrow> fault + ECGProcessor" where
  "processECGSample loPlus loMinus now rawValue s =
     (if loPlus \<or> loMinus then Inr (s\<lparr>leadOff := True, currentHeartRate := 0\<rparr>)
      else
        (let t = ecgTrack rawValue s
         in if rawValue > peakThreshold t \<and> \<not> inPeak t then
              Inr (t\<lparr>inPeak := True, peakValue := rawValue\<rparr>)
            else if inPeak t then
              (if rawValue > peakValue t then Inr (t\<lparr>peakValue := rawValue\<rparr>)
               else if rawValue < peakThreshold t then peakExit now (t\<lparr>inPeak := False\<rparr>)
               else Inr t)
            else Inr t))"

definition getHeartRate :: "ECGProcessor \<Rightarrow> int" where
  "getHeartRate s = (if leadOff s then 0 else currentHeartRate s)"

definition isLeadOff :: "ECGProcessor \<Rightarrow> bool" where
  "isLeadOff s = leadOff s"

definition ecgGetRawValue :: "ECGProcessor \<Rightarrow> int" where
  "ecgGetRawValue s = ecgBuffer s ! ((ecgBufferIndex s + 100 - 1) mod 100)"

section \<open>Respiratory extractor\<close>

text \<open>
  \<^verbatim>\<open>sqrt\<close> followed by the conversion to \<^verbatim>\<open>int\<close>: the integer square root, found here
  by counting up. The argument is the mean of sixty \<^verbatim>\<open>int\<close> values, so it is below
  \<open>2 ^ 15\<close> and exact as a float.
\<close>

function isqrtFrom :: "nat \<Rightarrow> nat \<Rightarrow> nat" where
  "isqrtFrom n k = (if (k + 1) * (k + 1) \<le> n then isqrtFrom n (k + 1) else k)"
  by pat_completeness auto
termination
proof (relation "measure (\<lambda>(n, k). n - k)")
  show "wf (measure (\<lambda>(n, k). n - k))" by simp
next
  fix n k :: nat
  assume h: "(k + 1) * (k + 1) \<le> n"
  have "k + 1 \<le> (k + 1) * (k + 1)" by simp
  with h have "k < n" by linarith
  then show "((n, k + 1), (n, k)) \<in> measure (\<lambda>(n, k). n - k)" by simp
qed

declare isqrtFrom.simps [simp del]

definition isqrt :: "int \<Rightarrow> int" where
  "isqrt v = int (isqrtFrom (nat v) 0)"

datatype BreathState = INHALE | EXHALE | HOLD

record RespiratoryProcessor =
  respBuffer :: "int list"
  respBufferIndex :: nat
  currentState :: BreathState
  lastState :: BreathState
  lastBreathTime :: int
  breathIntervals :: "int list"
  breathIndex :: nat
  currentBreathRate :: int
  respBaseline :: int
  inhaleThreshold :: int
  exhaleThreshold :: int

definition respProcInit :: RespiratoryProcessor where
  "respProcInit =
     \<lparr> respBuffer = replicate 60 0, respBufferIndex = 0, currentState = HOLD,
       lastState = HOLD, lastBreathTime = 0, breathIntervals = replicate 10 0,
       breathIndex = 0, currentBreathRate = 0, respBaseline = 512,
       inhaleThreshold = 530, exhaleThreshold = 494 \<rparr>"

text \<open>
  Lines 172-189, run when the cursor wraps to 0. \<^verbatim>\<open>sum\<close> and \<^verbatim>\<open>variance\<close> are \<^verbatim>\<open>long\<close>, but
  \<^verbatim>\<open>diff\<close> is an \<^verbatim>\<open>int\<close> and so is the product \<^verbatim>\<open>diff * diff\<close>: it wraps at 16 bits before it
  is added, and the variance can come out negative.
\<close>

definition respRecalc :: "RespiratoryProcessor \<Rightarrow> fault + RespiratoryProcessor" where
  "respRecalc s =
     (let tot = foldl (\<lambda>a x. long32 (a + x)) 0 (respBuffer s);
          base = int16 (cdiv tot 60);
          variance = foldl (\<lambda>v x. let diff = int16 (x - base)
                                   in long32 (v + int16 (diff * diff))) 0 (respBuffer s);
          meanSq = cdiv variance 60
      in if meanSq < 0 then Inl NanToInt
         else
           (let stdDev = int16 (isqrt meanSq)
            in Inr (s\<lparr>respBaseline := base,
                       inhaleThreshold := int16 (ftoi (of_int base + of_int stdDev * (1 / 2))),
                       exhaleThreshold := int16 (ftoi (of_int base - of_int stdDev * (1 / 2)))\<rparr>)))"

text \<open>Lines 167-189: the ring, then the thresholds at a window fill.\<close>

definition respTrack :: "int \<Rightarrow> RespiratoryProcessor \<Rightarrow> fault + RespiratoryProcessor" where
  "respTrack rawValue s =
     (let s1 = s\<lparr>respBuffer := (respBuffer s)[respBufferIndex s := rawValue],
                  respBufferIndex := (respBufferIndex s + 1) mod 60\<rparr>
      in if respBufferIndex s1 = 0 then respRecalc s1 else Inr s1)"

text \<open>Lines 194-200: the phase of a sample against the current threshold pair.\<close>

definition classifyPhase :: "int \<Rightarrow> RespiratoryProcessor \<Rightarrow> BreathState" where
  "classifyPhase rawValue s =
     (if rawValue > inhaleThreshold s then INHALE
      else if rawValue < exhaleThreshold s then EXHALE
      else HOLD)"

text \<open>Lines 204-228, the body of the exhale-to-inhale branch.\<close>

definition breathEdge :: "int \<Rightarrow> RespiratoryProcessor \<Rightarrow> fault + RespiratoryProcessor" where
  "breathEdge now s =
     (if lastBreathTime s > 0 then
        (let breathInterval = int16 (ulong32 (now - lastBreathTime s))
         in if breathInterval > 1500 \<and> breathInterval < 10000 then
              (let ivs = (breathIntervals s)[breathIndex s := breathInterval]
               in case rateFrom ivs (currentBreathRate s) of
                    Inl f \<Rightarrow> Inl f
                  | Inr br \<Rightarrow>
                      Inr (s\<lparr>breathIntervals := ivs, breathIndex := (breathIndex s + 1) mod 10,
                             currentBreathRate := br, lastBreathTime := now\<rparr>))
            else Inr (s\<lparr>lastBreathTime := now\<rparr>))
      else Inr (s\<lparr>lastBreathTime := now\<rparr>))"

text \<open>\<^verbatim>\<open>processRespSample\<close>; \<open>now\<close> is what \<^verbatim>\<open>millis()\<close> returns inside the call.\<close>

definition processRespSample ::
    "int \<Rightarrow> int \<Rightarrow> RespiratoryProcessor \<Rightarrow> fault + RespiratoryProcessor" where
  "processRespSample now rawValue s =
     (case respTrack rawValue s of
        Inl f \<Rightarrow> Inl f
      | Inr t \<Rightarrow>
          (let u = t\<lparr>lastState := currentState t,
                      currentState := classifyPhase rawValue t\<rparr>
           in if currentState u = INHALE \<and> lastState u = EXHALE then breathEdge now u
              else Inr u))"

definition getBreathRate :: "RespiratoryProcessor \<Rightarrow> int" where
  "getBreathRate s = currentBreathRate s"

definition respGetRawValue :: "RespiratoryProcessor \<Rightarrow> int" where
  "respGetRawValue s = respBuffer s ! ((respBufferIndex s + 60 - 1) mod 60)"

section \<open>GSR extractor\<close>

record GSRProcessor =
  gsrBuffer :: "int list"
  gsrBufferIndex :: nat
  gsrBaseline :: int
  smoothedValue :: int
  sweatLevel :: int
  calibrated :: bool
  calibrationSamples :: int

definition gsrProcInit :: GSRProcessor where
  "gsrProcInit =
     \<lparr> gsrBuffer = replicate 30 0, gsrBufferIndex = 0, gsrBaseline = 0,
       smoothedValue = 0, sweatLevel = 0, calibrated = False, calibrationSamples = 0 \<rparr>"

text \<open>Lines 260-269: the ring and the moving average over all thirty slots.\<close>

definition gsrSmooth :: "int \<Rightarrow> GSRProcessor \<Rightarrow> GSRProcessor" where
  "gsrSmooth rawValue s =
     (let buf = (gsrBuffer s)[gsrBufferIndex s := rawValue];
          tot = foldl (\<lambda>a x. long32 (a + x)) 0 buf
      in s\<lparr>gsrBuffer := buf, gsrBufferIndex := (gsrBufferIndex s + 1) mod 30,
            smoothedValue := int16 (cdiv tot 30)\<rparr>)"

text \<open>Lines 284-292: the band of a delta; 0 dry, 1 low, 2 medium, 3 high.\<close>

definition sweatBand :: "int \<Rightarrow> int" where
  "sweatBand delta =
     (if delta < 10 then 0 else if delta < 30 then 1 else if delta < 60 then 2 else 3)"

text \<open>
  \<^verbatim>\<open>processGSRSample\<close>; \<open>now\<close> is what \<^verbatim>\<open>millis()\<close> returns at line 295. \<^verbatim>\<open>baseline * 99\<close> and
  the sum after it are \<^verbatim>\<open>int\<close> operations, each cut to 16 bits.
\<close>

definition processGSRSample :: "int \<Rightarrow> int \<Rightarrow> GSRProcessor \<Rightarrow> GSRProcessor" where
  "processGSRSample now rawValue s =
     (let t = gsrSmooth rawValue s
      in if \<not> calibrated t then
           (let c = t\<lparr>calibrationSamples := int16 (calibrationSamples t + 1)\<rparr>
            in if calibrationSamples c \<ge> 50
               then c\<lparr>gsrBaseline := smoothedValue c, calibrated := True\<rparr>
               else c)
         else
           (let delta = int16 (smoothedValue t - gsrBaseline t);
                u = t\<lparr>sweatLevel := sweatBand delta\<rparr>
            in if ulong32 now mod 60000 = 0
               then u\<lparr>gsrBaseline :=
                        cdiv (int16 (int16 (gsrBaseline u * 99) + smoothedValue u)) 100\<rparr>
               else u))"

definition getSweatLevel :: "GSRProcessor \<Rightarrow> int" where
  "getSweatLevel s = sweatLevel s"

definition getSmoothedValue :: "GSRProcessor \<Rightarrow> int" where
  "getSmoothedValue s = smoothedValue s"

section \<open>Sample streams\<close>

text \<open>
  A processor is driven by one call per sample. A stream lists, per call, what the
  call reads: the clock and the converter's value, and for the cardiac channel the two
  lead-off pins before them. A run stops at the first fault.
\<close>

fun runECG ::
    "(bool \<times> bool \<times> int \<times> int) list \<Rightarrow> ECGProcessor \<Rightarrow> fault + ECGProcessor" where
  "runECG [] s = Inr s"
| "runECG ((loPlus, loMinus, now, rawValue) # rest) s =
     (case processECGSample loPlus loMinus now rawValue s of
        Inl f \<Rightarrow> Inl f
      | Inr s' \<Rightarrow> runECG rest s')"

fun runResp :: "(int \<times> int) list \<Rightarrow> RespiratoryProcessor \<Rightarrow> fault + RespiratoryProcessor" where
  "runResp [] s = Inr s"
| "runResp ((now, rawValue) # rest) s =
     (case processRespSample now rawValue s of
        Inl f \<Rightarrow> Inl f
      | Inr s' \<Rightarrow> runResp rest s')"

text \<open>The phase and the breath rate a reader sees after each call of a run.\<close>

fun respTrace ::
    "(int \<times> int) list \<Rightarrow> RespiratoryProcessor \<Rightarrow> fault + (BreathState \<times> int) list" where
  "respTrace [] s = Inr []"
| "respTrace ((now, rawValue) # rest) s =
     (case processRespSample now rawValue s of
        Inl f \<Rightarrow> Inl f
      | Inr s' \<Rightarrow>
          (case respTrace rest s' of
             Inl f \<Rightarrow> Inl f
           | Inr out \<Rightarrow> Inr ((currentState s', getBreathRate s') # out)))"

text \<open>
  The same outputs for the calls completed before the first fault of a run.
\<close>

fun respOutputs ::
    "(int \<times> int) list \<Rightarrow> RespiratoryProcessor \<Rightarrow> (BreathState \<times> int) list" where
  "respOutputs [] s = []"
| "respOutputs ((now, rawValue) # rest) s =
     (case processRespSample now rawValue s of
        Inl f \<Rightarrow> []
      | Inr s' \<Rightarrow> (currentState s', getBreathRate s') # respOutputs rest s')"

fun runGSR :: "(int \<times> int) list \<Rightarrow> GSRProcessor \<Rightarrow> GSRProcessor" where
  "runGSR [] s = s"
| "runGSR ((now, rawValue) # rest) s = runGSR rest (processGSRSample now rawValue s)"

section \<open>Start-up and the main loop\<close>

text \<open>
  The globals of the sketch. The display is written and never read back, so it is
  left out; the rows appended to \<^verbatim>\<open>VITALS.CSV\<close> and the lines printed on the serial port
  are kept as lists.
\<close>

datatype serialLine = Summary int int int | OpenError

record Vest =
  ecgProc :: ECGProcessor
  respProc :: RespiratoryProcessor
  gsrProc :: GSRProcessor
  lastECGSample :: int
  lastRespSample :: int
  lastGSRSample :: int
  lastLCDUpdate :: int
  lastDataLog :: int
  sessionStartTime :: int
  displayMode :: int
  vitalsCsv :: "int list list"
  serialOut :: "serialLine list"

definition vestInit :: Vest where
  "vestInit =
     \<lparr> ecgProc = ecgProcInit, respProc = respProcInit, gsrProc = gsrProcInit,
       lastECGSample = 0, lastRespSample = 0, lastGSRSample = 0, lastLCDUpdate = 0,
       lastDataLog = 0, sessionStartTime = 0, displayMode = 0, vitalsCsv = [],
       serialOut = [] \<rparr>"

text \<open>\<^verbatim>\<open>while(1);\<close> at line 346: a loop that never ends.\<close>

partial_function (option) spin :: "unit \<Rightarrow> Vest option" where
  "spin u = spin u"

text \<open>
  \<^verbatim>\<open>while(digitalRead(BUTTON_MODE) == HIGH);\<close> at line 372: \<open>high k\<close> says that the
  \<open>k\<close>-th poll of the pin reads HIGH.
\<close>

partial_function (option) waitForButton :: "(nat \<Rightarrow> bool) \<Rightarrow> nat \<Rightarrow> nat option" where
  "waitForButton high k = (if high k then waitForButton high (Suc k) else Some k)"

text \<open>
  The sketch's start-up function: \<open>sdBegins\<close> is the result of \<^verbatim>\<open>SD.begin(SD_CS)\<close>, \<open>startMillis\<close> the clock when
  the button has been pressed. \<open>None\<close> is a start-up that never returns.
\<close>

definition setup_sketch :: "bool \<Rightarrow> (nat \<Rightarrow> bool) \<Rightarrow> int \<Rightarrow> Vest option" where
  "setup_sketch sdBegins high startMillis =
     (if \<not> sdBegins then spin ()
      else case waitForButton high 0 of
             None \<Rightarrow> None
           | Some k \<Rightarrow> Some (vestInit\<lparr>sessionStartTime := startMillis\<rparr>))"

text \<open>A button that is already pressed at the first poll.\<close>

definition pressedAtOnce :: "nat \<Rightarrow> bool" where
  "pressedAtOnce k = False"

text \<open>
  \<^verbatim>\<open>logData\<close>: \<open>fileOpens\<close> is whether \<^verbatim>\<open>SD.open\<close> returns a usable file, \<open>stamp\<close> the
  \<^verbatim>\<open>millis()\<close> written to the row.
\<close>

definition logData :: "bool \<Rightarrow> int \<Rightarrow> Vest \<Rightarrow> Vest" where
  "logData fileOpens stamp v =
     (if fileOpens then
        v\<lparr>vitalsCsv := vitalsCsv v @
             [[stamp, getHeartRate (ecgProc v), getBreathRate (respProc v),
               getSweatLevel (gsrProc v), ecgGetRawValue (ecgProc v),
               respGetRawValue (respProc v), getSmoothedValue (gsrProc v)]],
          serialOut := serialOut v @
             [Summary (getHeartRate (ecgProc v)) (getBreathRate (respProc v))
                (getSweatLevel (gsrProc v))]\<rparr>
      else v\<lparr>serialOut := serialOut v @ [OpenError]\<rparr>)"

text \<open>What one pass of \<^verbatim>\<open>loop\<close> reads from the board.\<close>

record Pass =
  millisTop :: int
  ecgValue :: int
  loPlusHigh :: bool
  loMinusHigh :: bool
  ecgMillis :: int
  respValue :: int
  respMillis :: int
  gsrValue :: int
  gsrMillis :: int
  logMillis :: int
  fileOpens :: bool
  buttonLow :: bool

definition ecgTick :: "Pass \<Rightarrow> Vest \<Rightarrow> fault + Vest" where
  "ecgTick p v =
     (if ulong32 (millisTop p - lastECGSample v) \<ge> 3 then
        (case processECGSample (loPlusHigh p) (loMinusHigh p) (ecgMillis p) (ecgValue p)
                (ecgProc v) of
           Inl f \<Rightarrow> Inl f
         | Inr e \<Rightarrow> Inr (v\<lparr>ecgProc := e, lastECGSample := millisTop p\<rparr>))
      else Inr v)"

definition respTick :: "Pass \<Rightarrow> Vest \<Rightarrow> fault + Vest" where
  "respTick p v =
     (if ulong32 (millisTop p - lastRespSample v) \<ge> 50 then
        (case processRespSample (respMillis p) (respValue p) (respProc v) of
           Inl f \<Rightarrow> Inl f
         | Inr r \<Rightarrow> Inr (v\<lparr>respProc := r, lastRespSample := millisTop p\<rparr>))
      else Inr v)"

definition gsrTick :: "Pass \<Rightarrow> Vest \<Rightarrow> Vest" where
  "gsrTick p v =
     (if ulong32 (millisTop p - lastGSRSample v) \<ge> 200 then
        v\<lparr>gsrProc := processGSRSample (gsrMillis p) (gsrValue p) (gsrProc v),
          lastGSRSample := millisTop p\<rparr>
      else v)"

definition lcdTick :: "Pass \<Rightarrow> Vest \<Rightarrow> Vest" where
  "lcdTick p v =
     (if ulong32 (millisTop p - lastLCDUpdate v) \<ge> 1000
      then v\<lparr>lastLCDUpdate := millisTop p\<rparr> else v)"

definition logTick :: "Pass \<Rightarrow> Vest \<Rightarrow> Vest" where
  "logTick p v =
     (if ulong32 (millisTop p - lastDataLog v) \<ge> 1000
      then (logData (fileOpens p) (logMillis p) v)\<lparr>lastDataLog := millisTop p\<rparr>
      else v)"

definition buttonTick :: "Pass \<Rightarrow> Vest \<Rightarrow> Vest" where
  "buttonTick p v =
     (if buttonLow p then v\<lparr>displayMode := (displayMode v + 1) mod 3\<rparr> else v)"

text \<open>\<^verbatim>\<open>loop\<close>, one pass, in the order of the source.\<close>

definition loop :: "Pass \<Rightarrow> Vest \<Rightarrow> fault + Vest" where
  "loop p v =
     (case ecgTick p v of
        Inl f \<Rightarrow> Inl f
      | Inr v1 \<Rightarrow>
          (case respTick p v1 of
             Inl f \<Rightarrow> Inl f
           | Inr v2 \<Rightarrow> Inr (buttonTick p (logTick p (lcdTick p (gsrTick p v2))))))"

text \<open>The three processors of a system, the part that computes the metrics.\<close>

definition processors :: "Vest \<Rightarrow> ECGProcessor \<times> RespiratoryProcessor \<times> GSRProcessor" where
  "processors v = (ecgProc v, respProc v, gsrProc v)"

section \<open>Invariants\<close>

text \<open>
  The ten RR slots hold 0 (never written) or an admitted interval, and the slot cursor
  stays inside the array.
\<close>

definition rrSlotsValid :: "ECGProcessor \<Rightarrow> bool" where
  "rrSlotsValid s =
     (length (rrIntervals s) = 10 \<and> rrIndex s < 10 \<and>
      list_all (\<lambda>x. x = 0 \<or> (300 < x \<and> x < 2000)) (rrIntervals s))"

text \<open>
  The part of the respiratory state that the phase of the next sample depends on.
\<close>

definition phaseView ::
    "RespiratoryProcessor \<Rightarrow> int list \<times> nat \<times> BreathState \<times> int \<times> int \<times> int" where
  "phaseView s =
     (respBuffer s, respBufferIndex s, currentState s, respBaseline s,
      inhaleThreshold s, exhaleThreshold s)"

section \<open>Concrete inputs\<close>

text \<open>
  A GSR stream at the scheduler's cadence: \<open>n\<close> samples of the value \<open>v\<close>, 200 ms
  apart, the first one 200 ms after \<open>start\<close>.
\<close>

definition gsrSteady :: "int \<Rightarrow> nat \<Rightarrow> int \<Rightarrow> (int \<times> int) list" where
  "gsrSteady start n v = map (\<lambda>k. (start + 200 * int k, v)) [1..<n + 1]"

text \<open>
  The calibrated extractor with baseline \<open>base\<close> whose window holds thirty samples of
  \<open>v\<close>: what fifty samples of \<open>base\<close> followed by thirty of \<open>v\<close> leave (up to the buffer
  cursor, which no result below reads), see \<open>gsrAt_reached\<close>.
\<close>

definition gsrAt :: "int \<Rightarrow> int \<Rightarrow> GSRProcessor" where
  "gsrAt base v =
     gsrProcInit\<lparr>gsrBuffer := replicate 30 v, gsrBaseline := base, smoothedValue := v,
                  calibrated := True, calibrationSamples := 50\<rparr>"

text \<open>
  The cardiac extractor inside its second peak: from reset, a sample above the initial
  threshold, a sample below it at 1003 ms (the first peak exit, which only records its
  time), and a sample above the threshold again.
\<close>

definition ecgInPeak :: ECGProcessor where
  "ecgInPeak =
     (case runECG [(False, False, 1000, 700), (False, False, 1003, 100),
                   (False, False, 1300, 700)] ecgProcInit of
        Inr s \<Rightarrow> s
      | Inl f \<Rightarrow> ecgProcInit)"

text \<open>
  A quiet cardiac stream, leads connected, one sample every 3 ms with values between
  500 and 502, all below the initial threshold; and the extractor after 99 such
  samples, one sample before its first window is full.
\<close>

definition ecgQuiet :: "nat \<Rightarrow> (bool \<times> bool \<times> int \<times> int) list" where
  "ecgQuiet n = map (\<lambda>k. (False, False, 3 * int k, 500 + int (k mod 3))) [1..<n + 1]"

definition ecgWindowEnd :: ECGProcessor where
  "ecgWindowEnd = (case runECG (ecgQuiet 99) ecgProcInit of Inr s \<Rightarrow> s | Inl f \<Rightarrow> ecgProcInit)"

text \<open>
  Respiratory streams, as (clock, reading) pairs; 400 is below the initial exhale
  threshold 494, 600 above the initial inhale threshold 530, 512 between them. Each
  stream is shorter than one window, so the thresholds stay the initial ones.
  \<open>slowBreaths\<close>: a first exhale-to-inhale edge at 2000 ms and seven more, 9362 ms apart.
  \<open>pausedBreath\<close>: two edges 5000 ms apart, then exhale, hold, inhale.
  \<open>respAfter xs\<close> is the extractor after the stream \<open>xs\<close> from reset.
\<close>

definition slowBreaths :: "(int \<times> int) list" where
  "slowBreaths =
     [(1000, 400), (2000, 600),
      (6000, 400), (11362, 600), (15000, 400), (20724, 600),
      (25000, 400), (30086, 600), (35000, 400), (39448, 600),
      (45000, 400), (48810, 600), (55000, 400), (58172, 600),
      (62000, 400), (67534, 600)]"



text \<open>
  GSR streams at the scheduler's 200 ms cadence, the first sample 50 s after power-up
  (the sketch waits for a button before it samples). \<open>gsrMinuteOverflow\<close>: 51 samples
  of 500, the last at 60000 ms. \<open>gsrMinuteMissed\<close>: 50 samples of 300 on the odd
  hundreds up to 59900 ms, then a sample of 100 at 60100 ms.
\<close>

definition gsrMinuteOverflow :: "(int \<times> int) list" where
  "gsrMinuteOverflow = gsrSteady 49800 51 500"

definition gsrMinuteMissed :: "(int \<times> int) list" where
  "gsrMinuteMissed = gsrSteady 49900 50 300 @ [(60100, 100)]"

text \<open>
  The first pass of the main loop, 5 s after power-up, every task due, with a log file
  that does not open.
\<close>

definition firstPass :: Pass where
  "firstPass =
     \<lparr> millisTop = 5000, ecgValue = 700, loPlusHigh = False, loMinusHigh = False,
       ecgMillis = 5000, respValue = 400, respMillis = 5000, gsrValue = 300,
       gsrMillis = 5000, logMillis = 5001, fileOpens = False, buttonLow = False \<rparr>"


definition evenClock :: "int list" where
  "evenClock = map (\<lambda>k. 1000 * int k) [1..<17]"


section \<open>Arithmetic facts\<close>

lemma int16_id: "- 32768 \<le> x \<Longrightarrow> x \<le> 32767 \<Longrightarrow> int16 x = x"
  by (simp add: int16_def)

lemma cdiv_pos: "0 \<le> a \<Longrightarrow> 0 < b \<Longrightarrow> cdiv a b = a div b"
  by (cases "a = 0") (simp_all add: cdiv_def)

text \<open>
  With a clock that has not wrapped and less than 32768 ms between two events, the
  \<^verbatim>\<open>int\<close> interval is the elapsed time.
\<close>

lemma elapsed_fits:
  "lastTime \<le> now \<Longrightarrow> now - lastTime \<le> 32767 \<Longrightarrow>
   int16 (ulong32 (now - lastTime)) = now - lastTime"
  by (simp add: ulong32_def int16_def)

text \<open>\<open>isqrt\<close> is the square root rounded down.\<close>

lemma isqrtFrom_floor:
  "k * k \<le> n \<Longrightarrow>
   isqrtFrom n k * isqrtFrom n k \<le> n \<and> n < (isqrtFrom n k + 1) * (isqrtFrom n k + 1)"
proof (induction n k rule: isqrtFrom.induct)
  case (1 n k)
  show ?case
  proof (cases "(k + 1) * (k + 1) \<le> n")
    case True
    have e: "isqrtFrom n k = isqrtFrom n (k + 1)"
      using True by (subst isqrtFrom.simps) simp
    from "1.IH" [OF True True] show ?thesis
      unfolding e .
  next
    case False
    then have e: "isqrtFrom n k = k"
      by (subst isqrtFrom.simps) simp
    from False "1.prems" show ?thesis
      unfolding e by simp
  qed
qed

lemma isqrt_floor:
  assumes "0 \<le> v"
  shows "isqrt v * isqrt v \<le> v \<and> v < (isqrt v + 1) * (isqrt v + 1)"
proof -
  have "isqrtFrom (nat v) 0 * isqrtFrom (nat v) 0 \<le> nat v
      \<and> nat v < (isqrtFrom (nat v) 0 + 1) * (isqrtFrom (nat v) 0 + 1)"
    by (rule isqrtFrom_floor) simp
  then have "int (isqrtFrom (nat v) 0 * isqrtFrom (nat v) 0) \<le> int (nat v)"
    and "int (nat v) < int ((isqrtFrom (nat v) 0 + 1) * (isqrtFrom (nat v) 0 + 1))"
    by (simp_all only: of_nat_le_iff of_nat_less_iff)
  with assms show ?thesis by (simp add: isqrt_def algebra_simps)
qed

section \<open>Lead-off\<close>

text \<open>
  C5. When either lead-off pin reads 1, the call sets the lead-off flag, zeroes the
  heart rate and returns: the reported heart rate is 0, and the ring buffer with its
  cursor, the running minimum and maximum, the peak threshold, the stored RR
  intervals with their cursor, the last-peak timestamp, the in-peak flag and the peak
  value are those of the state before the call.
\<close>

theorem lead_off_preserves_history:
  assumes "loPlus \<or> loMinus"
  shows "\<exists>s'. processECGSample loPlus loMinus now rawValue s = Inr s'
    \<and> s' = s\<lparr>leadOff := True, currentHeartRate := 0\<rparr>
    \<and> leadOff s' \<and> getHeartRate s' = 0 \<and> currentHeartRate s' = 0
    \<and> ecgBuffer s' = ecgBuffer s \<and> ecgBufferIndex s' = ecgBufferIndex s
    \<and> signalMin s' = signalMin s \<and> signalMax s' = signalMax s
    \<and> peakThreshold s' = peakThreshold s
    \<and> rrIntervals s' = rrIntervals s \<and> rrIndex s' = rrIndex s
    \<and> lastPeakTime s' = lastPeakTime s
    \<and> inPeak s' = inPeak s \<and> peakValue s' = peakValue s"
  using assms by (simp add: processECGSample_def getHeartRate_def)

theorem lead_off_preserves_history_witness:
  "(True \<or> False) \<and>
   (\<exists>s'. processECGSample True False 1000 512
            (ecgProcInit\<lparr>currentHeartRate := 75, lastPeakTime := 5000\<rparr>) = Inr s'
      \<and> s' = ecgProcInit\<lparr>currentHeartRate := 75, lastPeakTime := 5000,
                          leadOff := True, currentHeartRate := 0\<rparr>)"
  using lead_off_preserves_history
    [of True False 1000 512 "ecgProcInit\<lparr>currentHeartRate := 75, lastPeakTime := 5000\<rparr>"]
  by simp

section \<open>GSR frame facts\<close>

lemma gsrSmooth_keeps [simp]:
  "calibrated (gsrSmooth raw s) = calibrated s"
  "gsrBaseline (gsrSmooth raw s) = gsrBaseline s"
  "sweatLevel (gsrSmooth raw s) = sweatLevel s"
  "calibrationSamples (gsrSmooth raw s) = calibrationSamples s"
  by (simp_all add: gsrSmooth_def Let_def)

lemma gsr_calibrated_step:
  assumes "calibrated s"
  shows "smoothedValue (processGSRSample now raw s) = smoothedValue (gsrSmooth raw s)"
    and "sweatLevel (processGSRSample now raw s)
      = sweatBand (int16 (smoothedValue (gsrSmooth raw s) - gsrBaseline s))"
    and "gsrBaseline (processGSRSample now raw s)
      = (if ulong32 now mod 60000 = 0
         then cdiv (int16 (int16 (gsrBaseline s * 99) + smoothedValue (gsrSmooth raw s))) 100
         else gsrBaseline s)"
  using assms by (simp_all add: processGSRSample_def Let_def)

lemma gsr_uncal_step:
  assumes "\<not> calibrated s" "0 \<le> calibrationSamples s" "calibrationSamples s < 49"
  shows "\<not> calibrated (processGSRSample now raw s)
    \<and> calibrationSamples (processGSRSample now raw s) = calibrationSamples s + 1
    \<and> sweatLevel (processGSRSample now raw s) = sweatLevel s
    \<and> gsrBaseline (processGSRSample now raw s) = gsrBaseline s"
  using assms by (simp add: processGSRSample_def gsrSmooth_def Let_def int16_id)

lemma gsr_completing_step:
  assumes "\<not> calibrated s" "calibrationSamples s = 49"
  shows "calibrated (processGSRSample now raw s)
    \<and> gsrBaseline (processGSRSample now raw s) = smoothedValue (processGSRSample now raw s)
    \<and> sweatLevel (processGSRSample now raw s) = sweatLevel s"
  using assms by (simp add: processGSRSample_def gsrSmooth_def Let_def int16_id)

lemma gsr_uncal_keeps_level:
  "\<not> calibrated s \<Longrightarrow> sweatLevel (processGSRSample now raw s) = sweatLevel s"
  by (simp add: processGSRSample_def gsrSmooth_def Let_def)

lemma gsr_calibrated_stays:
  "calibrated s \<Longrightarrow> calibrated (processGSRSample now raw s)"
  by (simp add: processGSRSample_def gsrSmooth_def Let_def)

lemma runGSR_append: "runGSR (xs @ ys) s = runGSR ys (runGSR xs s)"
  by (induction xs arbitrary: s) auto

lemma runGSR_uncal:
  "\<not> calibrated s \<Longrightarrow> calibrationSamples s = int k \<Longrightarrow> k + length xs < 50 \<Longrightarrow>
   \<not> calibrated (runGSR xs s) \<and> calibrationSamples (runGSR xs s) = int (k + length xs)
   \<and> sweatLevel (runGSR xs s) = sweatLevel s"
proof (induction xs arbitrary: s k)
  case Nil
  then show ?case by simp
next
  case (Cons x xs)
  obtain now raw where x: "x = (now, raw)" by (cases x)
  let ?t = "processGSRSample now raw s"
  have st: "\<not> calibrated ?t \<and> calibrationSamples ?t = calibrationSamples s + 1
      \<and> sweatLevel ?t = sweatLevel s \<and> gsrBaseline ?t = gsrBaseline s"
    using Cons.prems by (intro gsr_uncal_step) auto
  have "\<not> calibrated (runGSR xs ?t) \<and> calibrationSamples (runGSR xs ?t) = int (Suc k + length xs)
      \<and> sweatLevel (runGSR xs ?t) = sweatLevel ?t"
    using st Cons.prems by (intro Cons.IH) auto
  then show ?case using st x by simp
qed

lemma runGSR_calibrated_stays: "calibrated s \<Longrightarrow> calibrated (runGSR xs s)"
  by (induction xs arbitrary: s) (auto simp: gsr_calibrated_stays)

lemma runGSR_fifty:
  assumes "length xs = 50"
  shows "calibrated (runGSR xs gsrProcInit)
    \<and> gsrBaseline (runGSR xs gsrProcInit) = smoothedValue (runGSR xs gsrProcInit)
    \<and> sweatLevel (runGSR xs gsrProcInit) = 0"
proof -
  from assms obtain ys y where xs: "xs = ys @ [y]" and ly: "length ys = 49"
    by (cases xs rule: rev_cases) auto
  obtain now raw where y: "y = (now, raw)" by (cases y)
  let ?m = "runGSR ys gsrProcInit"
  have m: "\<not> calibrated ?m \<and> calibrationSamples ?m = int (0 + length ys)
      \<and> sweatLevel ?m = sweatLevel gsrProcInit"
    by (rule runGSR_uncal) (simp_all add: gsrProcInit_def ly)
  then have "calibrated (processGSRSample now raw ?m)
    \<and> gsrBaseline (processGSRSample now raw ?m) = smoothedValue (processGSRSample now raw ?m)
    \<and> sweatLevel (processGSRSample now raw ?m) = sweatLevel ?m"
    by (intro gsr_completing_step) (simp_all add: ly)
  with m show ?thesis by (simp add: xs y runGSR_append gsrProcInit_def)
qed

lemma runGSR_after_fifty:
  assumes "50 \<le> length xs"
  shows "calibrated (runGSR xs gsrProcInit)"
proof -
  have "xs = take 50 xs @ drop 50 xs" by simp
  then have "runGSR xs gsrProcInit = runGSR (drop 50 xs) (runGSR (take 50 xs) gsrProcInit)"
    by (metis runGSR_append)
  moreover have "calibrated (runGSR (take 50 xs) gsrProcInit)"
    using assms runGSR_fifty [of "take 50 xs"] by simp
  ultimately show ?thesis by (simp add: runGSR_calibrated_stays)
qed

section \<open>GSR calibration\<close>

text \<open>
  C9. From the reset state, after fewer than fifty samples the extractor is not
  calibrated and the exposed sweat level is still the initial 0; a call on an
  uncalibrated extractor never assigns the sweat level. The fiftieth sample sets the
  baseline to the smoothed value of that call and sets the calibrated flag, again
  without classifying, so the exposed level is 0 (dry) with smoothed equal to baseline.
  From then on the flag stays set: no call clears it. A calibrated call whose smoothed
  value equals the baseline classifies the sample as dry. On any state, whatever its
  baseline: an uncalibrated call stores its sample in the window and counts it; the
  call that brings the count to fifty assigns to the baseline the smoothed value it
  has just computed, the mean of the window with the sample in it.
\<close>

theorem gsr_calibration_phase:
  "(length xs < 50 \<longrightarrow>
      \<not> calibrated (runGSR xs gsrProcInit) \<and> getSweatLevel (runGSR xs gsrProcInit) = 0)
   \<and> (\<not> calibrated s \<longrightarrow> sweatLevel (processGSRSample now rawValue s) = sweatLevel s)
   \<and> (length xs = 50 \<longrightarrow>
        calibrated (runGSR xs gsrProcInit)
        \<and> gsrBaseline (runGSR xs gsrProcInit) = smoothedValue (runGSR xs gsrProcInit)
        \<and> getSweatLevel (runGSR xs gsrProcInit) = 0)
   \<and> (50 \<le> length xs \<longrightarrow> calibrated (runGSR xs gsrProcInit))
   \<and> (calibrated s \<longrightarrow> calibrated (processGSRSample now rawValue s))
   \<and> (calibrated s \<and> smoothedValue (processGSRSample now rawValue s) = gsrBaseline s \<longrightarrow>
        getSweatLevel (processGSRSample now rawValue s) = 0)
   \<and> (\<not> calibrated s \<and> 0 \<le> calibrationSamples s \<and> calibrationSamples s < 49 \<longrightarrow>
        \<not> calibrated (processGSRSample now rawValue s)
        \<and> calibrationSamples (processGSRSample now rawValue s) = calibrationSamples s + 1
        \<and> gsrBaseline (processGSRSample now rawValue s) = gsrBaseline s
        \<and> gsrBuffer (processGSRSample now rawValue s)
            = (gsrBuffer s)[gsrBufferIndex s := rawValue]
        \<and> gsrBufferIndex (processGSRSample now rawValue s) = (gsrBufferIndex s + 1) mod 30)
   \<and> (\<not> calibrated s \<and> calibrationSamples s = 49 \<longrightarrow>
        calibrated (processGSRSample now rawValue s)
        \<and> gsrBuffer (processGSRSample now rawValue s)
            = (gsrBuffer s)[gsrBufferIndex s := rawValue]
        \<and> smoothedValue (processGSRSample now rawValue s)
            = int16 (cdiv (foldl (\<lambda>a x. long32 (a + x)) 0
                             ((gsrBuffer s)[gsrBufferIndex s := rawValue])) 30)
        \<and> gsrBaseline (processGSRSample now rawValue s)
            = int16 (cdiv (foldl (\<lambda>a x. long32 (a + x)) 0
                             ((gsrBuffer s)[gsrBufferIndex s := rawValue])) 30)
        \<and> sweatLevel (processGSRSample now rawValue s) = sweatLevel s)"
proof (intro conjI impI)
  assume l: "length xs < 50"
  have "\<not> calibrated (runGSR xs gsrProcInit)
      \<and> calibrationSamples (runGSR xs gsrProcInit) = int (0 + length xs)
      \<and> sweatLevel (runGSR xs gsrProcInit) = sweatLevel gsrProcInit"
    by (rule runGSR_uncal) (simp_all add: gsrProcInit_def l)
  then show "\<not> calibrated (runGSR xs gsrProcInit)"
    and "getSweatLevel (runGSR xs gsrProcInit) = 0"
    by (simp_all add: getSweatLevel_def gsrProcInit_def)
next
  assume "\<not> calibrated s"
  then show "sweatLevel (processGSRSample now rawValue s) = sweatLevel s"
    by (rule gsr_uncal_keeps_level)
next
  assume l: "length xs = 50"
  from runGSR_fifty [OF l]
  show "calibrated (runGSR xs gsrProcInit)"
    and "gsrBaseline (runGSR xs gsrProcInit) = smoothedValue (runGSR xs gsrProcInit)"
    and "getSweatLevel (runGSR xs gsrProcInit) = 0"
    by (simp_all add: getSweatLevel_def)
next
  assume "50 \<le> length xs"
  then show "calibrated (runGSR xs gsrProcInit)" by (rule runGSR_after_fifty)
next
  assume "calibrated s"
  then show "calibrated (processGSRSample now rawValue s)" by (rule gsr_calibrated_stays)
next
  assume h: "calibrated s \<and> smoothedValue (processGSRSample now rawValue s) = gsrBaseline s"
  then have c: "calibrated s" by simp
  from h have "smoothedValue (gsrSmooth rawValue s) = gsrBaseline s"
    using gsr_calibrated_step(1) [OF c, of now rawValue] by simp
  then show "getSweatLevel (processGSRSample now rawValue s) = 0"
    using gsr_calibrated_step(2) [OF c, of now rawValue]
    by (simp add: getSweatLevel_def sweatBand_def int16_def)
next
  assume h: "\<not> calibrated s \<and> 0 \<le> calibrationSamples s \<and> calibrationSamples s < 49"
  then show "\<not> calibrated (processGSRSample now rawValue s)"
    and "calibrationSamples (processGSRSample now rawValue s) = calibrationSamples s + 1"
    and "gsrBaseline (processGSRSample now rawValue s) = gsrBaseline s"
    and "gsrBuffer (processGSRSample now rawValue s)
            = (gsrBuffer s)[gsrBufferIndex s := rawValue]"
    and "gsrBufferIndex (processGSRSample now rawValue s) = (gsrBufferIndex s + 1) mod 30"
    by (simp_all add: processGSRSample_def gsrSmooth_def Let_def int16_id)
next
  assume h: "\<not> calibrated s \<and> calibrationSamples s = 49"
  then show "calibrated (processGSRSample now rawValue s)"
    and "gsrBuffer (processGSRSample now rawValue s)
            = (gsrBuffer s)[gsrBufferIndex s := rawValue]"
    and "smoothedValue (processGSRSample now rawValue s)
            = int16 (cdiv (foldl (\<lambda>a x. long32 (a + x)) 0
                             ((gsrBuffer s)[gsrBufferIndex s := rawValue])) 30)"
    and "gsrBaseline (processGSRSample now rawValue s)
            = int16 (cdiv (foldl (\<lambda>a x. long32 (a + x)) 0
                             ((gsrBuffer s)[gsrBufferIndex s := rawValue])) 30)"
    and "sweatLevel (processGSRSample now rawValue s) = sweatLevel s"
    by (simp_all add: processGSRSample_def gsrSmooth_def Let_def int16_id)
qed

theorem gsr_calibration_phase_witness:
  "length (gsrSteady 0 49 512) < 50
   \<and> \<not> calibrated (runGSR (gsrSteady 0 49 512) gsrProcInit)
   \<and> getSweatLevel (runGSR (gsrSteady 0 49 512) gsrProcInit) = 0
   \<and> \<not> calibrated gsrProcInit
   \<and> 0 \<le> calibrationSamples gsrProcInit \<and> calibrationSamples gsrProcInit < 49
   \<and> sweatLevel (processGSRSample 200 512 gsrProcInit) = sweatLevel gsrProcInit
   \<and> calibrationSamples (processGSRSample 200 512 gsrProcInit) = 1
   \<and> gsrBuffer (processGSRSample 200 512 gsrProcInit) = 512 # replicate 29 0
   \<and> length (gsrSteady 0 50 512) = 50 \<and> 50 \<le> length (gsrSteady 0 50 512)
   \<and> calibrated (runGSR (gsrSteady 0 50 512) gsrProcInit)
   \<and> gsrBaseline (runGSR (gsrSteady 0 50 512) gsrProcInit)
       = smoothedValue (runGSR (gsrSteady 0 50 512) gsrProcInit)
   \<and> smoothedValue (runGSR (gsrSteady 0 50 512) gsrProcInit) = 512
   \<and> gsrBaseline (runGSR (gsrSteady 0 50 512) gsrProcInit) = 512
   \<and> getSweatLevel (runGSR (gsrSteady 0 50 512) gsrProcInit) = 0
   \<and> calibrated (gsrAt 512 512)
   \<and> smoothedValue (processGSRSample 10200 512 (gsrAt 512 512)) = gsrBaseline (gsrAt 512 512)
   \<and> calibrated (processGSRSample 10200 512 (gsrAt 512 512))
   \<and> getSweatLevel (processGSRSample 10200 512 (gsrAt 512 512)) = 0
   \<and> \<not> calibrated ((gsrAt 100 300)\<lparr>calibrated := False, calibrationSamples := 49\<rparr>)
   \<and> calibrationSamples ((gsrAt 100 300)\<lparr>calibrated := False, calibrationSamples := 49\<rparr>) = 49
   \<and> calibrated
        (processGSRSample 10000 330
           ((gsrAt 100 300)\<lparr>calibrated := False, calibrationSamples := 49\<rparr>))
   \<and> gsrBaseline
        (processGSRSample 10000 330
           ((gsrAt 100 300)\<lparr>calibrated := False, calibrationSamples := 49\<rparr>)) = 301"
proof -
  let ?s = "(gsrAt 100 300)\<lparr>calibrated := False, calibrationSamples := 49\<rparr>"
  have l49: "length (gsrSteady 0 49 512) < 50" and l50: "length (gsrSteady 0 50 512) = 50"
    by (simp_all add: gsrSteady_def)
  have u: "\<not> calibrated gsrProcInit" "0 \<le> calibrationSamples gsrProcInit"
    "calibrationSamples gsrProcInit < 49" "calibrationSamples gsrProcInit = 0"
    by (simp_all add: gsrProcInit_def)
  have b0: "(gsrBuffer gsrProcInit)[gsrBufferIndex gsrProcInit := 512] = 512 # replicate 29 0"
    by code_simp
  have c: "calibrated (gsrAt 512 512)" by (simp add: gsrAt_def)
  have e: "smoothedValue (processGSRSample 10200 512 (gsrAt 512 512)) = gsrBaseline (gsrAt 512 512)"
    by code_simp
  have sm: "smoothedValue (runGSR (gsrSteady 0 50 512) gsrProcInit) = 512" by code_simp
  have q: "\<not> calibrated ?s" "calibrationSamples ?s = 49" by (simp_all add: gsrAt_def)
  have m: "int16 (cdiv (foldl (\<lambda>a x. long32 (a + x)) 0
                             ((gsrBuffer ?s)[gsrBufferIndex ?s := 330])) 30) = 301"
    by code_simp
  show ?thesis
    using l49 l50 u b0 c e sm q m
      gsr_calibration_phase [of "gsrSteady 0 49 512" gsrProcInit 200 512]
      gsr_calibration_phase [of "gsrSteady 0 50 512" "gsrAt 512 512" 10200 512]
      gsr_calibration_phase [of "[]" ?s 10000 330]
    by simp
qed

section \<open>GSR classification\<close>

text \<open>
  C3. On a calibrated extractor the call classifies the delta between the smoothed
  value it has just computed and the baseline it was entered with: below 10 dry (0),
  from 10 and below 30 low (1), from 30 and below 60 medium (2), 60 and above high
  (3). The delta is an \<^verbatim>\<open>int\<close> subtraction; the statement is for differences that fit
  16 bits, which the readings of a 10-bit converter always do. The instance after it runs the
  call at the deltas 9, 10, 29, 30, 59 and 60.
\<close>

theorem gsr_classification:
  assumes "calibrated s"
    and "d = smoothedValue (processGSRSample now rawValue s) - gsrBaseline s"
    and "- 32768 \<le> d" and "d \<le> 32767"
  shows "getSweatLevel (processGSRSample now rawValue s)
     = (if d < 10 then 0 else if d < 30 then 1 else if d < 60 then 2 else 3)"
  using assms
  by (simp add: gsr_calibrated_step getSweatLevel_def sweatBand_def int16_id)


theorem gsr_classification_witness:
  "calibrated (gsrAt 100 109)
   \<and> smoothedValue (processGSRSample 16200 109 (gsrAt 100 109)) - gsrBaseline (gsrAt 100 109) = 9
   \<and> getSweatLevel (processGSRSample 16200 109 (gsrAt 100 109)) = 0
   \<and> smoothedValue (processGSRSample 16200 110 (gsrAt 100 110)) - gsrBaseline (gsrAt 100 110) = 10
   \<and> getSweatLevel (processGSRSample 16200 110 (gsrAt 100 110)) = 1
   \<and> smoothedValue (processGSRSample 16200 129 (gsrAt 100 129)) - gsrBaseline (gsrAt 100 129) = 29
   \<and> getSweatLevel (processGSRSample 16200 129 (gsrAt 100 129)) = 1
   \<and> smoothedValue (processGSRSample 16200 130 (gsrAt 100 130)) - gsrBaseline (gsrAt 100 130) = 30
   \<and> getSweatLevel (processGSRSample 16200 130 (gsrAt 100 130)) = 2
   \<and> smoothedValue (processGSRSample 16200 159 (gsrAt 100 159)) - gsrBaseline (gsrAt 100 159) = 59
   \<and> getSweatLevel (processGSRSample 16200 159 (gsrAt 100 159)) = 2
   \<and> smoothedValue (processGSRSample 16200 160 (gsrAt 100 160)) - gsrBaseline (gsrAt 100 160) = 60
   \<and> getSweatLevel (processGSRSample 16200 160 (gsrAt 100 160)) = 3"
proof -
  have c: "calibrated (gsrAt 100 v)" for v by (simp add: gsrAt_def)
  have d9: "9 = smoothedValue (processGSRSample 16200 109 (gsrAt 100 109)) - gsrBaseline (gsrAt 100 109)"
    by code_simp
  have d10: "10 = smoothedValue (processGSRSample 16200 110 (gsrAt 100 110)) - gsrBaseline (gsrAt 100 110)"
    by code_simp
  have d29: "29 = smoothedValue (processGSRSample 16200 129 (gsrAt 100 129)) - gsrBaseline (gsrAt 100 129)"
    by code_simp
  have d30: "30 = smoothedValue (processGSRSample 16200 130 (gsrAt 100 130)) - gsrBaseline (gsrAt 100 130)"
    by code_simp
  have d59: "59 = smoothedValue (processGSRSample 16200 159 (gsrAt 100 159)) - gsrBaseline (gsrAt 100 159)"
    by code_simp
  have d60: "60 = smoothedValue (processGSRSample 16200 160 (gsrAt 100 160)) - gsrBaseline (gsrAt 100 160)"
    by code_simp
  show ?thesis
    using c [of 109] d9 [symmetric] d10 [symmetric] d29 [symmetric] d30 [symmetric]
      d59 [symmetric] d60 [symmetric]
      gsr_classification [OF c d9] gsr_classification [OF c d10]
      gsr_classification [OF c d29] gsr_classification [OF c d30]
      gsr_classification [OF c d59] gsr_classification [OF c d60]
    by simp
qed

lemma gsrAt_reached:
  "runGSR (gsrSteady 0 50 100 @ gsrSteady 10000 30 109) gsrProcInit
     = (gsrAt 100 109)\<lparr>gsrBufferIndex := 20\<rparr>"
  by code_simp

section \<open>Cardiac invariants\<close>

lemma recalcThreshold_keeps [simp]:
  "rrIntervals (recalcThreshold s) = rrIntervals s"
  "rrIndex (recalcThreshold s) = rrIndex s"
  "lastPeakTime (recalcThreshold s) = lastPeakTime s"
  "inPeak (recalcThreshold s) = inPeak s"
  "peakValue (recalcThreshold s) = peakValue s"
  "currentHeartRate (recalcThreshold s) = currentHeartRate s"
  "leadOff (recalcThreshold s) = leadOff s"
  "ecgBuffer (recalcThreshold s) = ecgBuffer s"
  "ecgBufferIndex (recalcThreshold s) = ecgBufferIndex s"
  by (simp_all add: recalcThreshold_def Let_def)

lemma ecgTrack_keeps [simp]:
  "rrIntervals (ecgTrack raw s) = rrIntervals s"
  "rrIndex (ecgTrack raw s) = rrIndex s"
  "lastPeakTime (ecgTrack raw s) = lastPeakTime s"
  "inPeak (ecgTrack raw s) = inPeak s"
  "peakValue (ecgTrack raw s) = peakValue s"
  "currentHeartRate (ecgTrack raw s) = currentHeartRate s"
  "leadOff (ecgTrack raw s) = False"
  "ecgBufferIndex (ecgTrack raw s) = (ecgBufferIndex s + 1) mod 100"
  by (simp_all add: ecgTrack_def Let_def)

lemma slots_sum_bounds:
  "list_all (\<lambda>x. x = 0 \<or> (300 < x \<and> x < 2000)) xs \<Longrightarrow>
   301 * int (length (filter (\<lambda>x. 0 < x) xs)) \<le> sum_list xs
   \<and> sum_list xs \<le> 1999 * int (length (filter (\<lambda>x. 0 < x) xs))"
  by (induction xs) auto

lemma sumCount_exact:
  "list_all (\<lambda>x. x = 0 \<or> (300 < x \<and> x < 2000)) xs \<Longrightarrow> 0 \<le> t \<Longrightarrow>
   t + 2000 * int (length xs) \<le> 32767 \<Longrightarrow>
   sumCount xs t c = (t + sum_list xs, c + int (length (filter (\<lambda>x. 0 < x) xs)))"
proof (induction xs arbitrary: t c)
  case Nil
  then show ?case by simp
next
  case (Cons x xs)
  show ?case
  proof (cases "0 < x")
    case True
    with Cons.prems have x: "300 < x" "x < 2000" by auto
    with Cons.prems have w: "int16 (t + x) = t + x" by (intro int16_id) auto
    have "sumCount xs (t + x) (c + 1)
        = (t + x + sum_list xs, c + 1 + int (length (filter (\<lambda>x. 0 < x) xs)))"
      using Cons.prems x by (intro Cons.IH) auto
    with True w show ?thesis by simp
  next
    case False
    with Cons.prems have x: "x = 0" by auto
    have "sumCount xs t c = (t + sum_list xs, c + int (length (filter (\<lambda>x. 0 < x) xs)))"
      using Cons.prems by (intro Cons.IH) auto
    with x show ?thesis by simp
  qed
qed

lemma rateFrom_valid:
  assumes v: "list_all (\<lambda>x. x = 0 \<or> (300 < x \<and> x < 2000)) xs" and l: "length xs = 10"
    and p: "\<exists>x \<in> set xs. 0 < x"
  shows "rateFrom xs cur
      = Inr (60000 div (sum_list xs div int (length (filter (\<lambda>x. 0 < x) xs))))"
    and "30 \<le> 60000 div (sum_list xs div int (length (filter (\<lambda>x. 0 < x) xs)))"
    and "60000 div (sum_list xs div int (length (filter (\<lambda>x. 0 < x) xs))) \<le> 199"
proof -
  let ?n = "int (length (filter (\<lambda>x. 0 < x) xs))"
  let ?s = "sum_list xs"
  have sc: "sumCount xs 0 0 = (0 + ?s, 0 + ?n)"
    using v l by (intro sumCount_exact) auto
  from p have "filter (\<lambda>x. 0 < x) xs \<noteq> []" by (auto simp: filter_empty_conv)
  then have n: "0 < ?n" by simp
  from slots_sum_bounds [OF v] have b: "301 * ?n \<le> ?s" "?s \<le> 1999 * ?n" by auto
  have lo: "301 \<le> ?s div ?n"
  proof -
    have "301 = (301 * ?n) div ?n" using n by simp
    also have "\<dots> \<le> ?s div ?n" using b(1) n by (intro zdiv_mono1) auto
    finally show ?thesis .
  qed
  have hi: "?s div ?n \<le> 1999"
  proof -
    have "?s div ?n \<le> (1999 * ?n) div ?n" using b(2) n by (intro zdiv_mono1) auto
    also have "\<dots> = 1999" using n by simp
    finally show ?thesis .
  qed
  have avg: "cdiv ?s ?n = ?s div ?n" using b n by (intro cdiv_pos) auto
  have q: "cdiv 60000 (?s div ?n) = 60000 div (?s div ?n)" using lo by (intro cdiv_pos) auto
  have q1: "60000 div (?s div ?n) \<le> 60000 div 301"
    using lo by (intro zdiv_mono2) auto
  have q2: "60000 div 1999 \<le> 60000 div (?s div ?n)"
    using lo hi by (intro zdiv_mono2) auto
  show "30 \<le> 60000 div (?s div ?n)" using q2 by simp
  show "60000 div (?s div ?n) \<le> 199" using q1 by simp
  then have "int16 (60000 div (?s div ?n)) = 60000 div (?s div ?n)"
    using q2 by (intro int16_id) auto
  with sc n avg q lo show "rateFrom xs cur = Inr (60000 div (?s div ?n))"
    by (simp add: rateFrom_def Let_def)
qed

lemma slots_update_valid:
  assumes "list_all (\<lambda>x. x = 0 \<or> (300 < x \<and> x < 2000)) xs" "300 < c" "c < 2000"
  shows "list_all (\<lambda>x. x = 0 \<or> (300 < x \<and> x < 2000)) (xs[i := c])"
proof -
  have "set (xs[i := c]) \<subseteq> insert c (set xs)" by (rule set_update_subset_insert)
  with assms show ?thesis by (auto simp: list_all_iff)
qed

lemma peakExit_valid:
  assumes v: "rrSlotsValid s"
  shows "\<exists>s'. peakExit now s = Inr s' \<and> rrSlotsValid s' \<and> lastPeakTime s' = now
    \<and> (if 0 < lastPeakTime s \<and> 300 < int16 (ulong32 (now - lastPeakTime s))
            \<and> int16 (ulong32 (now - lastPeakTime s)) < 2000
        then rrIntervals s' = (rrIntervals s)[rrIndex s := int16 (ulong32 (now - lastPeakTime s))]
          \<and> rrIndex s' = (rrIndex s + 1) mod 10
          \<and> currentHeartRate s'
              = 60000 div (sum_list (rrIntervals s')
                    div int (length (filter (\<lambda>x. 0 < x) (rrIntervals s'))))
          \<and> 30 \<le> currentHeartRate s' \<and> currentHeartRate s' \<le> 199
        else rrIntervals s' = rrIntervals s \<and> rrIndex s' = rrIndex s
          \<and> currentHeartRate s' = currentHeartRate s)
    \<and> peakThreshold s' = peakThreshold s \<and> signalMin s' = signalMin s
    \<and> signalMax s' = signalMax s \<and> leadOff s' = leadOff s \<and> inPeak s' = inPeak s
    \<and> ecgBufferIndex s' = ecgBufferIndex s"
proof (cases "0 < lastPeakTime s \<and> 300 < int16 (ulong32 (now - lastPeakTime s))
            \<and> int16 (ulong32 (now - lastPeakTime s)) < 2000")
  case True
  let ?c = "int16 (ulong32 (now - lastPeakTime s))"
  let ?ivs = "(rrIntervals s)[rrIndex s := ?c]"
  from v have l: "length (rrIntervals s) = 10" and i: "rrIndex s < 10"
    and a: "list_all (\<lambda>x. x = 0 \<or> (300 < x \<and> x < 2000)) (rrIntervals s)"
    by (simp_all add: rrSlotsValid_def)
  have a': "list_all (\<lambda>x. x = 0 \<or> (300 < x \<and> x < 2000)) ?ivs"
    using a True by (intro slots_update_valid) auto
  have l': "length ?ivs = 10" using l by simp
  have m: "?c \<in> set ?ivs" using l i by (simp add: set_update_memI)
  from True have "0 < ?c" by linarith
  with m have p: "\<exists>x \<in> set ?ivs. 0 < x" by (rule_tac bexI)
  note r = rateFrom_valid(1) [OF a' l' p, of "currentHeartRate s"]
    rateFrom_valid(2,3) [OF a' l' p]
  show ?thesis
    using True r a' l' i
    by (simp add: peakExit_def Let_def rrSlotsValid_def)
next
  case False
  then show ?thesis
    using v by (auto simp: peakExit_def Let_def rrSlotsValid_def)
qed

lemma rrSlotsValid_fields:
  "rrIntervals t = rrIntervals s \<Longrightarrow> rrIndex t = rrIndex s \<Longrightarrow>
   rrSlotsValid t = rrSlotsValid s"
  by (simp add: rrSlotsValid_def)

lemma processECGSample_valid:
  assumes v: "rrSlotsValid s"
  shows "\<exists>s'. processECGSample loPlus loMinus now raw s = Inr s' \<and> rrSlotsValid s'"
proof (cases "loPlus \<or> loMinus")
  case True
  then show ?thesis using v by (simp add: processECGSample_def rrSlotsValid_def)
next
  case False
  let ?t = "ecgTrack raw s"
  have vt: "rrSlotsValid ?t" using v by (simp add: rrSlotsValid_def)
  then have vt': "rrSlotsValid (?t\<lparr>inPeak := False\<rparr>)" by (simp add: rrSlotsValid_def)
  from peakExit_valid [OF vt', of now]
  obtain s' where "peakExit now (?t\<lparr>inPeak := False\<rparr>) = Inr s'" "rrSlotsValid s'" by blast
  then show ?thesis
    using False vt by (simp add: processECGSample_def Let_def rrSlotsValid_def)
qed

lemma ecgProcInit_valid: "rrSlotsValid ecgProcInit"
  by (simp add: rrSlotsValid_def ecgProcInit_def list_all_iff)

lemma runECG_valid:
  "rrSlotsValid s \<Longrightarrow> \<exists>s'. runECG xs s = Inr s' \<and> rrSlotsValid s'"
proof (induction xs arbitrary: s)
  case Nil
  then show ?case by simp
next
  case (Cons x xs)
  obtain lp lm now raw where x: "x = (lp, lm, now, raw)" by (cases x)
  from processECGSample_valid [OF Cons.prems, of lp lm now raw]
  obtain t where t: "processECGSample lp lm now raw s = Inr t" "rrSlotsValid t" by blast
  from Cons.IH [OF t(2)] obtain s' where "runECG xs t = Inr s'" "rrSlotsValid s'" by blast
  with t x show ?case by simp
qed

lemma ecg_never_faults: "\<exists>s'. runECG xs ecgProcInit = Inr s' \<and> rrSlotsValid s'"
  by (rule runECG_valid [OF ecgProcInit_valid])

section \<open>RR interval admission\<close>

text \<open>
  What a peak exit does with the \<^verbatim>\<open>int\<close> it computes, on a state whose slots hold 0 or
  admitted intervals, as every state reached from reset does (\<open>ecg_never_faults\<close>).
\<close>

lemma rr_interval_admission_int:
  assumes conn: "\<not> (loPlus \<or> loMinus)"
    and v: "rrSlotsValid s"
    and ex: "inPeak s" "\<not> peakValue s < rawValue" "rawValue < peakThreshold (ecgTrack rawValue s)"
    and prev: "0 < lastPeakTime s"
    and c: "c = int16 (ulong32 (now - lastPeakTime s))"
  shows "\<exists>s'. processECGSample loPlus loMinus now rawValue s = Inr s' \<and> rrSlotsValid s'
    \<and> (if 300 < c \<and> c < 2000
        then rrIntervals s' = (rrIntervals s)[rrIndex s := c]
          \<and> rrIndex s' = (rrIndex s + 1) mod 10
          \<and> currentHeartRate s'
              = 60000 div (sum_list (rrIntervals s')
                    div int (length (filter (\<lambda>x. 0 < x) (rrIntervals s'))))
        else rrIntervals s' = rrIntervals s \<and> rrIndex s' = rrIndex s
          \<and> currentHeartRate s' = currentHeartRate s)
    \<and> getHeartRate s' = currentHeartRate s'"
proof -
  let ?t = "(ecgTrack rawValue s)\<lparr>inPeak := False\<rparr>"
  have vt: "rrSlotsValid ?t" using v by (simp add: rrSlotsValid_def)
  from peakExit_valid [OF vt, of now]
  obtain s' where s': "peakExit now ?t = Inr s'" "rrSlotsValid s'"
    and r: "if 0 < lastPeakTime ?t \<and> 300 < int16 (ulong32 (now - lastPeakTime ?t))
            \<and> int16 (ulong32 (now - lastPeakTime ?t)) < 2000
        then rrIntervals s' = (rrIntervals ?t)[rrIndex ?t := int16 (ulong32 (now - lastPeakTime ?t))]
          \<and> rrIndex s' = (rrIndex ?t + 1) mod 10
          \<and> currentHeartRate s'
              = 60000 div (sum_list (rrIntervals s')
                    div int (length (filter (\<lambda>x. 0 < x) (rrIntervals s'))))
          \<and> 30 \<le> currentHeartRate s' \<and> currentHeartRate s' \<le> 199
        else rrIntervals s' = rrIntervals ?t \<and> rrIndex s' = rrIndex ?t
          \<and> currentHeartRate s' = currentHeartRate ?t"
    and lo: "leadOff s' = leadOff ?t"
    by blast
  have p: "processECGSample loPlus loMinus now rawValue s = Inr s'"
    using conn ex s'(1) by (simp add: processECGSample_def Let_def)
  have g: "getHeartRate s' = currentHeartRate s'"
    using lo by (simp add: getHeartRate_def)
  from r prev c have "if 300 < c \<and> c < 2000
        then rrIntervals s' = (rrIntervals s)[rrIndex s := c]
          \<and> rrIndex s' = (rrIndex s + 1) mod 10
          \<and> currentHeartRate s'
              = 60000 div (sum_list (rrIntervals s')
                    div int (length (filter (\<lambda>x. 0 < x) (rrIntervals s'))))
        else rrIntervals s' = rrIntervals s \<and> rrIndex s' = rrIndex s
          \<and> currentHeartRate s' = currentHeartRate s"
    by (simp split: if_splits)
  with p s'(2) g show ?thesis by blast
qed

text \<open>
  C2, as the code has it. At a peak exit of a connected extractor that has a previous
  peak, with a clock that has not wrapped since and a gap that fits the \<^verbatim>\<open>int\<close> holding
  it (up to 32767 ms), the candidate is the elapsed time. It is admitted exactly when
  it is strictly between 300 and 2000: then it is written to the slot under the
  cursor, the cursor advances, and the heart rate becomes 60000 divided by the mean
  of the populated slots, both divisions being integer divisions. Otherwise the
  slots, the cursor and the heart rate are those before the call.
\<close>

theorem rr_interval_admission:
  assumes conn: "\<not> (loPlus \<or> loMinus)"
    and v: "rrSlotsValid s"
    and ex: "inPeak s" "\<not> peakValue s < rawValue" "rawValue < peakThreshold (ecgTrack rawValue s)"
    and prev: "0 < lastPeakTime s"
    and mono: "lastPeakTime s \<le> now" and fits: "now - lastPeakTime s \<le> 32767"
    and c: "c = now - lastPeakTime s"
  shows "\<exists>s'. processECGSample loPlus loMinus now rawValue s = Inr s' \<and> rrSlotsValid s'
    \<and> (if 300 < c \<and> c < 2000
        then rrIntervals s' = (rrIntervals s)[rrIndex s := c]
          \<and> rrIndex s' = (rrIndex s + 1) mod 10
          \<and> currentHeartRate s'
              = 60000 div (sum_list (rrIntervals s')
                    div int (length (filter (\<lambda>x. 0 < x) (rrIntervals s'))))
        else rrIntervals s' = rrIntervals s \<and> rrIndex s' = rrIndex s
          \<and> currentHeartRate s' = currentHeartRate s)
    \<and> getHeartRate s' = currentHeartRate s'"
proof -
  have "c = int16 (ulong32 (now - lastPeakTime s))"
    using elapsed_fits [OF mono fits] c by simp
  from rr_interval_admission_int [OF conn v ex prev this] show ?thesis .
qed

theorem rr_interval_admission_witness:
  "\<not> (False \<or> False) \<and> rrSlotsValid ecgInPeak \<and> inPeak ecgInPeak
   \<and> \<not> peakValue ecgInPeak < 100 \<and> 100 < peakThreshold (ecgTrack 100 ecgInPeak)
   \<and> 0 < lastPeakTime ecgInPeak
   \<and> lastPeakTime ecgInPeak \<le> 1803 \<and> 1803 - lastPeakTime ecgInPeak \<le> 32767
   \<and> lastPeakTime ecgInPeak \<le> 1103 \<and> 1103 - lastPeakTime ecgInPeak \<le> 32767
   \<and> 800 = 1803 - lastPeakTime ecgInPeak
   \<and> 100 = 1103 - lastPeakTime ecgInPeak
   \<and> (\<exists>s'. processECGSample False False 1803 100 ecgInPeak = Inr s'
         \<and> rrIntervals s' = [800, 0, 0, 0, 0, 0, 0, 0, 0, 0] \<and> rrIndex s' = 1
         \<and> currentHeartRate s' = 75 \<and> getHeartRate s' = 75)
   \<and> (\<exists>s'. processECGSample False False 1103 100 ecgInPeak = Inr s'
         \<and> rrIntervals s' = rrIntervals ecgInPeak \<and> rrIndex s' = rrIndex ecgInPeak
         \<and> currentHeartRate s' = currentHeartRate ecgInPeak)"
proof -
  have e: "ecgInPeak =
      \<lparr>ecgBuffer = [700, 100, 700] @ replicate 97 0, ecgBufferIndex = 3, lastPeakTime = 1003,
       rrIntervals = replicate 10 0, rrIndex = 0, currentHeartRate = 0, peakThreshold = 600,
       signalMin = 100, signalMax = 700, leadOff = False, inPeak = True, peakValue = 700\<rparr>"
    by code_simp
  have h1: "\<not> (False \<or> False)" by simp
  have h2: "rrSlotsValid ecgInPeak" by (simp add: e rrSlotsValid_def list_all_iff)
  have h3: "inPeak ecgInPeak" by (simp add: e)
  have h4: "\<not> peakValue ecgInPeak < 100" by (simp add: e)
  have h5: "100 < peakThreshold (ecgTrack 100 ecgInPeak)"
    by (simp add: e ecgTrack_def Let_def)
  have h6: "0 < lastPeakTime ecgInPeak" by (simp add: e)
  have m1: "lastPeakTime ecgInPeak \<le> 1803" and f1: "1803 - lastPeakTime ecgInPeak \<le> 32767"
    and m2: "lastPeakTime ecgInPeak \<le> 1103" and f2: "1103 - lastPeakTime ecgInPeak \<le> 32767"
    by (simp_all add: e)
  have c1: "800 = 1803 - lastPeakTime ecgInPeak" by (simp add: e)
  have c2: "100 = 1103 - lastPeakTime ecgInPeak" by (simp add: e)
  have u: "(rrIntervals ecgInPeak)[rrIndex ecgInPeak := 800] = [800, 0, 0, 0, 0, 0, 0, 0, 0, 0]"
    by (simp add: e numeral_eq_Suc)
  from rr_interval_admission [OF h1 h2 h3 h4 h5 h6 m1 f1 c1]
  obtain a where a: "processECGSample False False 1803 100 ecgInPeak = Inr a"
    "rrIntervals a = (rrIntervals ecgInPeak)[rrIndex ecgInPeak := 800]"
    "rrIndex a = (rrIndex ecgInPeak + 1) mod 10"
    "currentHeartRate a = 60000 div (sum_list (rrIntervals a)
        div int (length (filter (\<lambda>x. 0 < x) (rrIntervals a))))"
    "getHeartRate a = currentHeartRate a"
    by auto
  from a(2) u have ra: "rrIntervals a = [800, 0, 0, 0, 0, 0, 0, 0, 0, 0]" by simp
  from a(4) have ha: "currentHeartRate a = 75" by (simp add: ra)
  from a(3) have ia: "rrIndex a = 1" by (simp add: e)
  from rr_interval_admission [OF h1 h2 h3 h4 h5 h6 m2 f2 c2]
  obtain b where b: "processECGSample False False 1103 100 ecgInPeak = Inr b"
    "rrIntervals b = rrIntervals ecgInPeak" "rrIndex b = rrIndex ecgInPeak"
    "currentHeartRate b = currentHeartRate ecgInPeak"
    by auto
  show ?thesis
    using h1 h2 h3 h4 h5 h6 m1 f1 m2 f2 c1 c2 a(1,5) ra ha ia b by simp
qed

text \<open>
  The bounds are open: candidates of exactly 300 ms and exactly 2000 ms are rejected,
  the slots stay empty and the heart rate stays 0, while 301 ms is admitted (199 bpm).
\<close>

theorem rr_interval_closed_bounds_counterexample:
  "1303 - lastPeakTime ecgInPeak = 300
   \<and> map_sum id rrIntervals (processECGSample False False 1303 100 ecgInPeak)
       = Inr (replicate 10 0)
   \<and> map_sum id currentHeartRate (processECGSample False False 1303 100 ecgInPeak) = Inr 0
   \<and> 3003 - lastPeakTime ecgInPeak = 2000
   \<and> map_sum id rrIntervals (processECGSample False False 3003 100 ecgInPeak)
       = Inr (replicate 10 0)
   \<and> map_sum id currentHeartRate (processECGSample False False 3003 100 ecgInPeak) = Inr 0
   \<and> 1304 - lastPeakTime ecgInPeak = 301
   \<and> map_sum id currentHeartRate (processECGSample False False 1304 100 ecgInPeak) = Inr 199"
  by code_simp

text \<open>
  A gap that does not fit the \<^verbatim>\<open>int\<close> is outside the statement above: the assignment
  \<^verbatim>\<open>int rrInterval = now - lastPeakTime\<close> keeps its low 16 bits, and a peak exit 66000 ms
  after the previous one is stored as 464 ms.
\<close>

lemma rr_gap_narrowed:
  "67003 - lastPeakTime ecgInPeak = 66000
   \<and> map_sum id rrIntervals (processECGSample False False 67003 100 ecgInPeak)
       = Inr [464, 0, 0, 0, 0, 0, 0, 0, 0, 0]
   \<and> map_sum id currentHeartRate (processECGSample False False 67003 100 ecgInPeak) = Inr 129"
  by code_simp

section \<open>Threshold recomputation\<close>

lemma ftoi_tenths:
  assumes "0 \<le> 10 * a + k * r"
  shows "ftoi (of_int a + of_int r * (of_int k / 10)) = (10 * a + k * r) div 10"
proof -
  have e: "(of_int a + of_int r * (of_int k / 10) :: rat) = of_int (10 * a + k * r) / of_int 10"
    by (simp add: field_simps)
  have "0 \<le> (of_int (10 * a + k * r) / of_int 10 :: rat)"
    using assms by (simp del: of_int_add of_int_mult)
  then show ?thesis
    unfolding e ftoi_def by (simp only: if_True floor_divide_of_int_eq)
qed

lemma recalc_formulas:
  assumes "0 \<le> signalMin t" "signalMin t \<le> signalMax t" "signalMax t \<le> 1023"
    and "r = signalMax t - signalMin t"
  shows "peakThreshold (recalcThreshold t) = signalMin t + (6 * r) div 10"
    and "signalMin (recalcThreshold t) = signalMax t - (8 * r + 9) div 10"
    and "signalMax (recalcThreshold t) = signalMin (recalcThreshold t) + (8 * r) div 10"
proof -
  have r: "0 \<le> r" "r \<le> 1023" using assms by auto
  have ir: "int16 (signalMax t - signalMin t) = r" using r assms(4) by (simp add: int16_id)
  have t1: "ftoi (of_int (signalMin t) + of_int r * (6 / 10)) = (10 * signalMin t + 6 * r) div 10"
    using ftoi_tenths [of "signalMin t" 6 r] assms r by simp
  have t2: "ftoi (of_int (signalMax t) - of_int r * (8 / 10)) = (10 * signalMax t + (- 8) * r) div 10"
    using ftoi_tenths [of "signalMax t" "- 8" r] assms r by simp
  let ?mn = "(10 * signalMax t + (- 8) * r) div 10"
  have mnb: "0 \<le> ?mn" "?mn \<le> 1023" using assms r by auto
  have t3: "ftoi (of_int ?mn + of_int r * (8 / 10)) = (10 * ?mn + 8 * r) div 10"
    using ftoi_tenths [of ?mn 8 r] mnb r by simp
  have i1: "int16 ((10 * signalMin t + 6 * r) div 10) = (10 * signalMin t + 6 * r) div 10"
    using assms r by (intro int16_id) auto
  have i2: "int16 ?mn = ?mn" using mnb by (intro int16_id) auto
  have i3: "int16 ((10 * ?mn + 8 * r) div 10) = (10 * ?mn + 8 * r) div 10"
    using mnb r by (intro int16_id) auto
  show "peakThreshold (recalcThreshold t) = signalMin t + (6 * r) div 10"
    using ir t1 i1 by (simp add: recalcThreshold_def Let_def)
  have mn: "signalMin (recalcThreshold t) = ?mn"
    using ir t2 i2 by (simp add: recalcThreshold_def Let_def)
  then show "signalMin (recalcThreshold t) = signalMax t - (8 * r + 9) div 10" by simp
  have "signalMax (recalcThreshold t) = (10 * ?mn + 8 * r) div 10"
    using ir t2 i2 t3 i3 by (simp add: recalcThreshold_def Let_def)
  with mn show "signalMax (recalcThreshold t) = signalMin (recalcThreshold t) + (8 * r) div 10"
    by simp
qed

lemma peakExit_keeps:
  assumes "peakExit now t = Inr s'"
  shows "peakThreshold s' = peakThreshold t" "signalMin s' = signalMin t"
    "signalMax s' = signalMax t" "ecgBufferIndex s' = ecgBufferIndex t"
  using assms by (auto simp: peakExit_def Let_def split: if_splits sum.splits)

lemma processECGSample_connected:
  assumes "processECGSample False False now raw s = Inr s'"
  shows "peakThreshold s' = peakThreshold (ecgTrack raw s)"
    "signalMin s' = signalMin (ecgTrack raw s)"
    "signalMax s' = signalMax (ecgTrack raw s)"
    "ecgBufferIndex s' = (ecgBufferIndex s + 1) mod 100"
  using assms peakExit_keeps [of now "(ecgTrack raw s)\<lparr>inPeak := False\<rparr>" s']
  by (auto simp: processECGSample_def Let_def split: if_splits)

lemma ecgTrack_range:
  "(ecgBufferIndex s + 1) mod 100 \<noteq> 0 \<Longrightarrow>
     peakThreshold (ecgTrack raw s) = peakThreshold s
     \<and> signalMin (ecgTrack raw s) = min (signalMin s) raw
     \<and> signalMax (ecgTrack raw s) = max (signalMax s) raw"
  "(ecgBufferIndex s + 1) mod 100 = 0 \<Longrightarrow>
     \<exists>t. ecgTrack raw s = recalcThreshold t
       \<and> signalMin t = min (signalMin s) raw \<and> signalMax t = max (signalMax s) raw"
  by (auto simp: ecgTrack_def Let_def)


lemma tenths:
  fixes r :: int
  obtains k j where "r = 5 * k + j" "0 \<le> j" "j < 5"
    "(6 * r) div 10 = 3 * k + (6 * j) div 10"
    "(8 * r) div 10 = 4 * k + (8 * j) div 10"
    "(8 * r + 9) div 10 = 4 * k + (8 * j + 9) div 10"
proof -
  define k where "k = r div 5"
  define j where "j = r mod 5"
  have r: "r = 5 * k + j" by (simp add: k_def j_def)
  have j: "0 \<le> j" "j < 5" by (simp_all add: j_def)
  have e1: "6 * r = 6 * j + (3 * k) * 10" by (simp add: r)
  have e2: "8 * r = 8 * j + (4 * k) * 10" by (simp add: r)
  have e3: "8 * r + 9 = (8 * j + 9) + (4 * k) * 10" by (simp add: r)
  have d1: "(6 * r) div 10 = 3 * k + (6 * j) div 10"
    unfolding e1 by (rule div_mult_self1) simp
  have d2: "(8 * r) div 10 = 4 * k + (8 * j) div 10"
    unfolding e2 by (rule div_mult_self1) simp
  have d3: "(8 * r + 9) div 10 = 4 * k + (8 * j + 9) div 10"
    unfolding e3 by (rule div_mult_self1) simp
  from r j d1 d2 d3 show ?thesis by (rule that)
qed

lemma centre:
  "\<bar>2 * ((6 * r) div 10) - 2 * r + 2 * ((8 * r + 9) div 10) - (8 * r) div 10\<bar> \<le> (1::int)"
proof -
  obtain k j where h: "r = 5 * k + j" "0 \<le> j" "j < 5"
    "(6 * r) div 10 = 3 * k + (6 * j) div 10"
    "(8 * r) div 10 = 4 * k + (8 * j) div 10"
    "(8 * r + 9) div 10 = 4 * k + (8 * j + 9) div 10"
    by (rule tenths)
  from h(2,3) consider "j = 0" | "j = 1" | "j = 2" | "j = 3" | "j = 4" by linarith
  then show ?thesis
    unfolding h(4,5,6) by cases (simp_all add: h(1))
qed


lemma band_bounds:
  fixes m M r :: int
  assumes "0 \<le> m" "m \<le> M" "M \<le> 1023" "r = M - m"
  shows "0 \<le> M - (8 * r + 9) div 10" "M - (8 * r + 9) div 10 + (8 * r) div 10 \<le> 1023"
proof -
  have a: "(8 * r + 9) div 10 \<le> r"
  proof -
    have "(8 * r + 9) div 10 \<le> (10 * r + 9) div 10"
      using assms by (intro zdiv_mono1) auto
    also have "\<dots> = r" by simp
    finally show ?thesis .
  qed
  have b: "(8 * r) div 10 \<le> (8 * r + 9) div 10" by (intro zdiv_mono1) auto
  from a assms show "0 \<le> M - (8 * r + 9) div 10" by linarith
  from b assms show "M - (8 * r + 9) div 10 + (8 * r) div 10 \<le> 1023" by linarith
qed

lemma tenths_rat:
  fixes t a r k :: int
  assumes "t = a + (k * r) div 10"
  shows "of_int t \<le> (of_int a + of_int r * (of_int k / 10) :: rat)"
    and "(of_int a + of_int r * (of_int k / 10) :: rat) < of_int t + 1"
proof -
  define x :: rat where "x = of_int (k * r) / of_int 10"
  have e: "(of_int a + of_int r * (of_int k / 10) :: rat) = of_int a + x"
    by (simp add: x_def field_simps)
  have f: "(k * r) div 10 = \<lfloor>x\<rfloor>"
    unfolding x_def by (simp only: floor_divide_of_int_eq)
  have le: "(of_int \<lfloor>x\<rfloor> :: rat) \<le> x" by (rule of_int_floor_le)
  have lt: "x < of_int \<lfloor>x\<rfloor> + 1" by linarith
  have t: "(of_int t :: rat) = of_int a + of_int \<lfloor>x\<rfloor>"
    unfolding assms f by simp
  from le show "of_int t \<le> (of_int a + of_int r * (of_int k / 10) :: rat)"
    unfolding e t by linarith
  from lt show "(of_int a + of_int r * (of_int k / 10) :: rat) < of_int t + 1"
    unfolding e t by linarith
qed

lemma runECG_cursor:
  "runECG xs s = Inr s' \<Longrightarrow> list_all (\<lambda>x. \<not> fst x \<and> \<not> fst (snd x)) xs \<Longrightarrow>
   ecgBufferIndex s < 100 \<Longrightarrow>
   ecgBufferIndex s' = (ecgBufferIndex s + length xs) mod 100"
proof (induction xs arbitrary: s)
  case Nil
  then show ?case by simp
next
  case (Cons x xs)
  obtain lp lm now raw where x: "x = (lp, lm, now, raw)" by (cases x)
  with Cons.prems(2) have c: "lp = False" "lm = False" by auto
  from Cons.prems(1) x c obtain t where
    t: "processECGSample False False now raw s = Inr t" "runECG xs t = Inr s'"
    by (auto split: sum.splits)
  from processECGSample_connected(4) [OF t(1)]
  have i: "ecgBufferIndex t = (ecgBufferIndex s + 1) mod 100" .
  from i have "ecgBufferIndex t < 100" by simp
  from Cons.IH [OF t(2) _ this] Cons.prems(2)
  have "ecgBufferIndex s' = (ecgBufferIndex t + length xs) mod 100" by simp
  with i show ?case by (simp add: mod_simps)
qed

lemma ecg_window_fill_every_hundred:
  assumes "runECG xs ecgProcInit = Inr s"
    and "list_all (\<lambda>x. \<not> fst x \<and> \<not> fst (snd x)) xs"
  shows "((ecgBufferIndex s + 1) mod 100 = 0) = ((length xs + 1) mod 100 = 0)"
proof -
  have "ecgBufferIndex ecgProcInit < 100" by (simp add: ecgProcInit_def)
  from runECG_cursor [OF assms this] have "ecgBufferIndex s = length xs mod 100"
    by (simp add: ecgProcInit_def)
  then show ?thesis by (simp add: mod_simps)
qed

text \<open>
  C6. With readings and running extremes inside the converter's range, a call that
  returns a state does the following. If the leads are connected and the sample
  fills the window (the cursor wraps to 0, which from reset is every hundredth
  buffered sample, \<open>ecg_window_fill_every_hundred\<close>), the threshold becomes
  \<open>m + 0.6 (M - m)\<close> converted to \<^verbatim>\<open>int\<close>, where \<open>m\<close> and \<open>M\<close> are the running minimum and
  maximum including the sample; the minimum becomes \<open>M - 0.8 (M - m)\<close> and the maximum
  the new minimum plus \<open>0.8 (M - m)\<close>, each converted to \<^verbatim>\<open>int\<close>. The conversions drop
  less than 1: the threshold is within 1 below the exact value, the width of the band
  within 1 below \<open>0.8 (M - m)\<close>, and the band's midpoint within one half of the
  threshold. On every other call the threshold is the one before the call. The
  band stays inside the converter's range.
\<close>

theorem peak_threshold_recompute:
  assumes adc: "0 \<le> rawValue" "rawValue \<le> 1023" "0 \<le> signalMin s" "signalMax s \<le> 1023"
    and step: "processECGSample loPlus loMinus now rawValue s = Inr s'"
    and m: "m = min (signalMin s) rawValue" and M: "M = max (signalMax s) rawValue"
  shows "(if \<not> (loPlus \<or> loMinus) \<and> (ecgBufferIndex s + 1) mod 100 = 0
          then peakThreshold s' = ftoi (of_int m + of_int (M - m) * (6 / 10))
            \<and> peakThreshold s' = m + (6 * (M - m)) div 10
            \<and> signalMin s' = M - (8 * (M - m) + 9) div 10
            \<and> signalMax s' = signalMin s' + (8 * (M - m)) div 10
            \<and> \<bar>2 * peakThreshold s' - (signalMin s' + signalMax s')\<bar> \<le> 1
            \<and> of_int (peakThreshold s') \<le> (of_int m + of_int (M - m) * (6 / 10) :: rat)
            \<and> (of_int m + of_int (M - m) * (6 / 10) :: rat) < of_int (peakThreshold s') + 1
            \<and> of_int (signalMax s' - signalMin s') \<le> (of_int (M - m) * (8 / 10) :: rat)
            \<and> (of_int (M - m) * (8 / 10) :: rat) < of_int (signalMax s' - signalMin s') + 1
          else peakThreshold s' = peakThreshold s)
         \<and> 0 \<le> signalMin s' \<and> signalMax s' \<le> 1023"
proof (cases "loPlus \<or> loMinus")
  case True
  with step have "s' = s\<lparr>leadOff := True, currentHeartRate := 0\<rparr>"
    by (simp add: processECGSample_def)
  with True adc show ?thesis by simp
next
  case False
  then have lp: "loPlus = False" "loMinus = False" by auto
  note f = processECGSample_connected [OF step [unfolded lp]]
  have mM: "0 \<le> m" "m \<le> M" "M \<le> 1023" using adc m M by auto
  show ?thesis
  proof (cases "(ecgBufferIndex s + 1) mod 100 = 0")
    case w: False
    from ecgTrack_range(1) [OF w, of rawValue]
    have "peakThreshold s' = peakThreshold s" "signalMin s' = m" "signalMax s' = M"
      using f m M by simp_all
    with mM w show ?thesis by simp
  next
    case w: True
    from ecgTrack_range(2) [OF w, of rawValue]
    obtain t where t: "ecgTrack rawValue s = recalcThreshold t"
      "signalMin t = m" "signalMax t = M" using m M by auto
    define r where "r = M - m"
    have r: "r = signalMax t - signalMin t" "0 \<le> r" "r \<le> 1023"
      using t mM by (auto simp: r_def)
    have tm: "0 \<le> signalMin t" "signalMin t \<le> signalMax t" "signalMax t \<le> 1023"
      using t mM by auto
    note g = recalc_formulas [OF tm r(1)]
    have thr: "peakThreshold s' = m + (6 * r) div 10" using f(1) t g(1) by simp
    have mn: "signalMin s' = M - (8 * r + 9) div 10" using f(2) t g(2) by simp
    have mx: "signalMax s' = signalMin s' + (8 * r) div 10" using f(2,3) t(1) g(3) by simp
    have "0 \<le> 10 * m + 6 * r" using mM r by linarith
    from ftoi_tenths [OF this]
    have thr0: "peakThreshold s' = ftoi (of_int m + of_int r * (6 / 10))"
      using thr by simp
    have c: "\<bar>2 * peakThreshold s' - (signalMin s' + signalMax s')\<bar> \<le> 1"
    proof -
      have "2 * peakThreshold s' - (signalMin s' + signalMax s')
          = 2 * ((6 * r) div 10) - 2 * r + 2 * ((8 * r + 9) div 10) - (8 * r) div 10"
        using thr mn mx r_def by linarith
      then show ?thesis using centre [of r] by simp
    qed
    have p1: "of_int (peakThreshold s') \<le> (of_int m + of_int r * (6 / 10) :: rat)"
      using tenths_rat(1) [OF thr] by simp
    have p2: "(of_int m + of_int r * (6 / 10) :: rat) < of_int (peakThreshold s') + 1"
      using tenths_rat(2) [OF thr] by simp
    have wd: "signalMax s' - signalMin s' = 0 + (8 * r) div 10" using mx by simp
    have p3: "of_int (signalMax s' - signalMin s') \<le> (of_int r * (8 / 10) :: rat)"
      using tenths_rat(1) [OF wd] by simp
    have p4: "(of_int r * (8 / 10) :: rat) < of_int (signalMax s' - signalMin s') + 1"
      using tenths_rat(2) [OF wd] by simp
    note bb = band_bounds [OF mM r_def]
    have lo: "0 \<le> signalMin s'" using mn bb(1) by simp
    have hi: "signalMax s' \<le> 1023" using mn mx bb(2) by simp
    have C: "\<not> (loPlus \<or> loMinus) \<and> (ecgBufferIndex s + 1) mod 100 = 0"
      using False w by simp
    show ?thesis
      apply (subst if_P [OF C])
      using thr0 thr mn mx c p1 p2 p3 p4 lo hi unfolding r_def
      by (intro conjI) assumption+
  qed
qed

theorem peak_threshold_recompute_witness:
  "(0::int) \<le> 501 \<and> (501::int) \<le> 1023
   \<and> 0 \<le> signalMin ecgWindowEnd \<and> signalMax ecgWindowEnd \<le> 1023
   \<and> processECGSample False False 300 501 ecgWindowEnd = Inr (ecgTrack 501 ecgWindowEnd)
   \<and> (ecgBufferIndex ecgWindowEnd + 1) mod 100 = 0
   \<and> min (signalMin ecgWindowEnd) 501 = 500 \<and> max (signalMax ecgWindowEnd) 501 = 502
   \<and> peakThreshold (ecgTrack 501 ecgWindowEnd) = 501
   \<and> signalMin (ecgTrack 501 ecgWindowEnd) = 500
   \<and> signalMax (ecgTrack 501 ecgWindowEnd) = 501
   \<and> processECGSample False False 1303 100 ecgInPeak
       = Inr (ecgTrack 100 ecgInPeak\<lparr>inPeak := False, lastPeakTime := 1303\<rparr>)
   \<and> 0 \<le> signalMin ecgInPeak \<and> signalMax ecgInPeak \<le> 1023
   \<and> peakThreshold (ecgTrack 100 ecgInPeak\<lparr>inPeak := False, lastPeakTime := 1303\<rparr>)
       = peakThreshold ecgInPeak"
proof -
  have a: "(0::int) \<le> 501" "(501::int) \<le> 1023" "(0::int) \<le> 100" "(100::int) \<le> 1023"
    by simp_all
  have mn: "signalMin ecgWindowEnd = 500" by code_simp
  have mx: "signalMax ecgWindowEnd = 502" by code_simp
  have ix: "ecgBufferIndex ecgWindowEnd = 99" by code_simp
  have st: "processECGSample False False 300 501 ecgWindowEnd = Inr (ecgTrack 501 ecgWindowEnd)"
    by code_simp
  have b: "0 \<le> signalMin ecgWindowEnd" "signalMax ecgWindowEnd \<le> 1023"
    by (simp_all add: mn mx)
  have mn2: "signalMin ecgInPeak = 100" by code_simp
  have mx2: "signalMax ecgInPeak = 700" by code_simp
  have ix2: "ecgBufferIndex ecgInPeak = 3" by code_simp
  have st2: "processECGSample False False 1303 100 ecgInPeak
       = Inr (ecgTrack 100 ecgInPeak\<lparr>inPeak := False, lastPeakTime := 1303\<rparr>)"
    by code_simp
  have b2: "0 \<le> signalMin ecgInPeak" "signalMax ecgInPeak \<le> 1023"
    by (simp_all add: mn2 mx2)
  show ?thesis
    using a b b2 st st2 mn mx ix
      peak_threshold_recompute [OF a(1,2) b st refl refl]
      peak_threshold_recompute [OF a(3,4) b2 st2 refl refl]
    by (simp add: ix2)
qed

section \<open>Respiratory frame facts\<close>

lemma respRecalc_keeps:
  assumes "respRecalc s = Inr t"
  shows "respBuffer t = respBuffer s" "respBufferIndex t = respBufferIndex s"
    "currentState t = currentState s" "lastState t = lastState s"
    "lastBreathTime t = lastBreathTime s" "breathIntervals t = breathIntervals s"
    "breathIndex t = breathIndex s" "currentBreathRate t = currentBreathRate s"
  using assms by (auto simp: respRecalc_def Let_def split: if_splits)

lemma respTrack_keeps:
  assumes "respTrack raw s = Inr t"
  shows "currentState t = currentState s" "lastState t = lastState s"
    "lastBreathTime t = lastBreathTime s" "breathIntervals t = breathIntervals s"
    "breathIndex t = breathIndex s" "currentBreathRate t = currentBreathRate s"
  using assms
    respRecalc_keeps [of "s\<lparr>respBuffer := (respBuffer s)[respBufferIndex s := raw],
                  respBufferIndex := (respBufferIndex s + 1) mod 60\<rparr>" t]
  by (auto simp: respTrack_def Let_def split: if_splits)

lemma breathEdge_result:
  assumes "breathEdge now u = Inr s'"
  shows "lastBreathTime s' = now"
    and "currentState s' = currentState u" and "lastState s' = lastState u"
    and "respBuffer s' = respBuffer u" and "respBufferIndex s' = respBufferIndex u"
    and "respBaseline s' = respBaseline u" and "inhaleThreshold s' = inhaleThreshold u"
    and "exhaleThreshold s' = exhaleThreshold u"
    and "breathIntervals s' =
      (if 0 < lastBreathTime u \<and> 1500 < int16 (ulong32 (now - lastBreathTime u))
          \<and> int16 (ulong32 (now - lastBreathTime u)) < 10000
       then (breathIntervals u)[breathIndex u := int16 (ulong32 (now - lastBreathTime u))]
       else breathIntervals u)"
    and "breathIndex s' =
      (if 0 < lastBreathTime u \<and> 1500 < int16 (ulong32 (now - lastBreathTime u))
          \<and> int16 (ulong32 (now - lastBreathTime u)) < 10000
       then (breathIndex u + 1) mod 10 else breathIndex u)"
    and "\<not> (0 < lastBreathTime u \<and> 1500 < int16 (ulong32 (now - lastBreathTime u))
          \<and> int16 (ulong32 (now - lastBreathTime u)) < 10000)
       \<Longrightarrow> currentBreathRate s' = currentBreathRate u"
  using assms by (auto simp: breathEdge_def Let_def split: if_splits sum.splits)

lemma processRespSample_shape:
  assumes "processRespSample now raw s = Inr s'"
  obtains t where "respTrack raw s = Inr t"
    and "currentState s' = classifyPhase raw t" and "lastState s' = currentState s"
    and "classifyPhase raw t = INHALE \<and> currentState s = EXHALE \<Longrightarrow>
          breathEdge now (t\<lparr>lastState := currentState t,
                             currentState := classifyPhase raw t\<rparr>) = Inr s'"
    and "\<not> (classifyPhase raw t = INHALE \<and> currentState s = EXHALE) \<Longrightarrow>
          s' = t\<lparr>lastState := currentState t, currentState := classifyPhase raw t\<rparr>"
proof -
  from assms obtain t where t: "respTrack raw s = Inr t"
    by (auto simp: processRespSample_def split: sum.splits)
  note k = respTrack_keeps [OF t]
  let ?u = "t\<lparr>lastState := currentState t, currentState := classifyPhase raw t\<rparr>"
  show ?thesis
  proof (cases "classifyPhase raw t = INHALE \<and> currentState s = EXHALE")
    case True
    with assms t k have e: "breathEdge now ?u = Inr s'"
      by (simp add: processRespSample_def Let_def)
    from breathEdge_result(2,3) [OF e] k have "currentState s' = classifyPhase raw t"
      "lastState s' = currentState s" by simp_all
    with t e True show ?thesis by (intro that [of t]) auto
  next
    case False
    with assms t k have e: "s' = ?u"
      by (auto simp: processRespSample_def Let_def)
    then have "currentState s' = classifyPhase raw t" "lastState s' = currentState s"
      using k by simp_all
    with t e False show ?thesis by (intro that [of t]) auto
  qed
qed

lemma resp_step_edge:
  assumes "processRespSample now raw s = Inr s'"
  shows "lastState s' = currentState s"
    and "currentState s' = INHALE \<and> currentState s = EXHALE \<Longrightarrow>
       lastBreathTime s' = now
       \<and> breathIntervals s' =
          (if 0 < lastBreathTime s \<and> 1500 < int16 (ulong32 (now - lastBreathTime s))
              \<and> int16 (ulong32 (now - lastBreathTime s)) < 10000
           then (breathIntervals s)[breathIndex s := int16 (ulong32 (now - lastBreathTime s))]
           else breathIntervals s)
       \<and> (\<not> (0 < lastBreathTime s \<and> 1500 < int16 (ulong32 (now - lastBreathTime s))
              \<and> int16 (ulong32 (now - lastBreathTime s)) < 10000)
          \<longrightarrow> currentBreathRate s' = currentBreathRate s \<and> breathIndex s' = breathIndex s)"
    and "\<not> (currentState s' = INHALE \<and> currentState s = EXHALE) \<Longrightarrow>
       lastBreathTime s' = lastBreathTime s \<and> breathIntervals s' = breathIntervals s
       \<and> breathIndex s' = breathIndex s \<and> currentBreathRate s' = currentBreathRate s"
proof -
  from assms obtain t where t: "respTrack raw s = Inr t"
    and c: "currentState s' = classifyPhase raw t" and l: "lastState s' = currentState s"
    and e: "classifyPhase raw t = INHALE \<and> currentState s = EXHALE \<Longrightarrow>
          breathEdge now (t\<lparr>lastState := currentState t,
                             currentState := classifyPhase raw t\<rparr>) = Inr s'"
    and n: "\<not> (classifyPhase raw t = INHALE \<and> currentState s = EXHALE) \<Longrightarrow>
          s' = t\<lparr>lastState := currentState t, currentState := classifyPhase raw t\<rparr>"
    using processRespSample_shape [OF assms] by blast
  note k = respTrack_keeps [OF t]
  show "lastState s' = currentState s" by (rule l)
  {
    assume h: "currentState s' = INHALE \<and> currentState s = EXHALE"
    with c have "classifyPhase raw t = INHALE \<and> currentState s = EXHALE" by simp
    from e [OF this] have b: "breathEdge now (t\<lparr>lastState := currentState t,
                             currentState := classifyPhase raw t\<rparr>) = Inr s'" .
    from breathEdge_result(1,9,10,11) [OF b] k
    show "lastBreathTime s' = now
       \<and> breathIntervals s' =
          (if 0 < lastBreathTime s \<and> 1500 < int16 (ulong32 (now - lastBreathTime s))
              \<and> int16 (ulong32 (now - lastBreathTime s)) < 10000
           then (breathIntervals s)[breathIndex s := int16 (ulong32 (now - lastBreathTime s))]
           else breathIntervals s)
       \<and> (\<not> (0 < lastBreathTime s \<and> 1500 < int16 (ulong32 (now - lastBreathTime s))
              \<and> int16 (ulong32 (now - lastBreathTime s)) < 10000)
          \<longrightarrow> currentBreathRate s' = currentBreathRate s \<and> breathIndex s' = breathIndex s)"
      by simp
  }
  {
    assume h: "\<not> (currentState s' = INHALE \<and> currentState s = EXHALE)"
    with c have "\<not> (classifyPhase raw t = INHALE \<and> currentState s = EXHALE)" by simp
    from n [OF this] k
    show "lastBreathTime s' = lastBreathTime s \<and> breathIntervals s' = breathIntervals s
       \<and> breathIndex s' = breathIndex s \<and> currentBreathRate s' = currentBreathRate s"
      by simp
  }
qed

section \<open>Breath counting\<close>







section \<open>Determinism and the clock\<close>

lemma respRecalc_view:
  assumes "respBuffer s1 = respBuffer s2"
  shows "map_sum id phaseView (respRecalc s1)
       = map_sum id phaseView (respRecalc (s2\<lparr>respBufferIndex := respBufferIndex s1,
            currentState := currentState s1\<rparr>))"
  using assms by (simp add: respRecalc_def Let_def phaseView_def)

lemma respTrack_view:
  assumes v: "phaseView s1 = phaseView s2"
    and t1: "respTrack raw s1 = Inr t1" and t2: "respTrack raw s2 = Inr t2"
  shows "phaseView t1 = phaseView t2"
proof -
  let ?a = "s1\<lparr>respBuffer := (respBuffer s1)[respBufferIndex s1 := raw],
                  respBufferIndex := (respBufferIndex s1 + 1) mod 60\<rparr>"
  let ?b = "s2\<lparr>respBuffer := (respBuffer s2)[respBufferIndex s2 := raw],
                  respBufferIndex := (respBufferIndex s2 + 1) mod 60\<rparr>"
  from v have e: "respBuffer s1 = respBuffer s2" "respBufferIndex s1 = respBufferIndex s2"
    "currentState s1 = currentState s2" "respBaseline s1 = respBaseline s2"
    "inhaleThreshold s1 = inhaleThreshold s2" "exhaleThreshold s1 = exhaleThreshold s2"
    by (simp_all add: phaseView_def)
  have ab: "phaseView ?a = phaseView ?b" using e by (simp add: phaseView_def)
  show ?thesis
  proof (cases "(respBufferIndex s1 + 1) mod 60 = 0")
    case True
    from t1 True have r1: "respRecalc ?a = Inr t1" by (simp add: respTrack_def Let_def)
    from t2 True e have r2: "respRecalc ?b = Inr t2" by (simp add: respTrack_def Let_def)
    have "respBuffer ?a = respBuffer ?b" using e by simp
    from respRecalc_view [OF this]
    have "map_sum id phaseView (respRecalc ?a) = map_sum id phaseView (respRecalc ?b)"
      using e by simp
    with r1 r2 show ?thesis by simp
  next
    case False
    from t1 False have "t1 = ?a" by (simp add: respTrack_def Let_def)
    moreover from t2 False e have "t2 = ?b" by (simp add: respTrack_def Let_def)
    ultimately show ?thesis using ab by simp
  qed
qed

lemma resp_step_view:
  assumes v: "phaseView s1 = phaseView s2"
    and p1: "processRespSample n1 raw s1 = Inr s1'"
    and p2: "processRespSample n2 raw s2 = Inr s2'"
  shows "phaseView s1' = phaseView s2'"
proof -
  from processRespSample_shape [OF p1] obtain t1 where
    t1: "respTrack raw s1 = Inr t1" and c1: "currentState s1' = classifyPhase raw t1"
    and e1: "classifyPhase raw t1 = INHALE \<and> currentState s1 = EXHALE \<Longrightarrow>
          breathEdge n1 (t1\<lparr>lastState := currentState t1,
                             currentState := classifyPhase raw t1\<rparr>) = Inr s1'"
    and f1: "\<not> (classifyPhase raw t1 = INHALE \<and> currentState s1 = EXHALE) \<Longrightarrow>
          s1' = t1\<lparr>lastState := currentState t1, currentState := classifyPhase raw t1\<rparr>"
    by blast
  from processRespSample_shape [OF p2] obtain t2 where
    t2: "respTrack raw s2 = Inr t2" and c2: "currentState s2' = classifyPhase raw t2"
    and e2: "classifyPhase raw t2 = INHALE \<and> currentState s2 = EXHALE \<Longrightarrow>
          breathEdge n2 (t2\<lparr>lastState := currentState t2,
                             currentState := classifyPhase raw t2\<rparr>) = Inr s2'"
    and f2: "\<not> (classifyPhase raw t2 = INHALE \<and> currentState s2 = EXHALE) \<Longrightarrow>
          s2' = t2\<lparr>lastState := currentState t2, currentState := classifyPhase raw t2\<rparr>"
    by blast
  from respTrack_view [OF v t1 t2] have tv: "phaseView t1 = phaseView t2" .
  then have cl: "classifyPhase raw t1 = classifyPhase raw t2"
    by (simp add: phaseView_def classifyPhase_def)
  let ?u1 = "t1\<lparr>lastState := currentState t1, currentState := classifyPhase raw t1\<rparr>"
  let ?u2 = "t2\<lparr>lastState := currentState t2, currentState := classifyPhase raw t2\<rparr>"
  have uv: "phaseView ?u1 = phaseView ?u2" using tv cl by (simp add: phaseView_def)
  have a1: "phaseView s1' = phaseView ?u1"
  proof (cases "classifyPhase raw t1 = INHALE \<and> currentState s1 = EXHALE")
    case True
    from breathEdge_result(2,4,5,6,7,8) [OF e1 [OF True]] show ?thesis
      by (simp add: phaseView_def)
  next
    case False
    from f1 [OF False] show ?thesis by simp
  qed
  have a2: "phaseView s2' = phaseView ?u2"
  proof (cases "classifyPhase raw t2 = INHALE \<and> currentState s2 = EXHALE")
    case True
    from breathEdge_result(2,4,5,6,7,8) [OF e2 [OF True]] show ?thesis
      by (simp add: phaseView_def)
  next
    case False
    from f2 [OF False] show ?thesis by simp
  qed
  from a1 a2 uv show ?thesis by simp
qed

lemma respTrace_view:
  "phaseView s1 = phaseView s2 \<Longrightarrow> length ts1 = length xs \<Longrightarrow> length ts2 = length xs \<Longrightarrow>
   respTrace (zip ts1 xs) s1 = Inr o1 \<Longrightarrow> respTrace (zip ts2 xs) s2 = Inr o2 \<Longrightarrow>
   map fst o1 = map fst o2"
proof (induction xs arbitrary: ts1 ts2 s1 s2 o1 o2)
  case Nil
  then show ?case by simp
next
  case (Cons x xs)
  from Cons.prems(2) obtain a as where ts1: "ts1 = a # as" "length as = length xs"
    by (cases ts1) auto
  from Cons.prems(3) obtain b bs where ts2: "ts2 = b # bs" "length bs = length xs"
    by (cases ts2) auto
  from Cons.prems(4) ts1 obtain s1' r1 where
    q1: "processRespSample a x s1 = Inr s1'" "respTrace (zip as xs) s1' = Inr r1"
      "o1 = (currentState s1', getBreathRate s1') # r1"
    by (auto split: sum.splits)
  from Cons.prems(5) ts2 obtain s2' r2 where
    q2: "processRespSample b x s2 = Inr s2'" "respTrace (zip bs xs) s2' = Inr r2"
      "o2 = (currentState s2', getBreathRate s2') # r2"
    by (auto split: sum.splits)
  from resp_step_view [OF Cons.prems(1) q1(1) q2(1)] have v: "phaseView s1' = phaseView s2'" .
  then have c: "currentState s1' = currentState s2'" by (simp add: phaseView_def)
  from Cons.IH [OF v ts1(2) ts2(2) q1(2) q2(2)] have "map fst r1 = map fst r2" .
  with c q1(3) q2(3) show ?case by simp
qed

lemma respTrace_outputs:
  "respTrace xs s = Inr out \<Longrightarrow> respOutputs xs s = out"
proof (induction xs arbitrary: s out)
  case Nil
  then show ?case by simp
next
  case (Cons x xs)
  obtain now raw where x: "x = (now, raw)" by (cases x)
  from Cons.prems x obtain s' r where
    q: "processRespSample now raw s = Inr s'" "respTrace xs s' = Inr r"
      "out = (currentState s', getBreathRate s') # r"
    by (auto split: sum.splits)
  from Cons.IH [OF q(2)] q x show ?case by simp
qed

lemma respOutputs_view:
  "phaseView s1 = phaseView s2 \<Longrightarrow> length ts1 = length xs \<Longrightarrow> length ts2 = length xs \<Longrightarrow>
   take (length (respOutputs (zip ts2 xs) s2)) (map fst (respOutputs (zip ts1 xs) s1))
     = take (length (respOutputs (zip ts1 xs) s1)) (map fst (respOutputs (zip ts2 xs) s2))"
proof (induction xs arbitrary: ts1 ts2 s1 s2)
  case Nil
  then show ?case by simp
next
  case (Cons x xs)
  from Cons.prems(2) obtain a as where ts1: "ts1 = a # as" "length as = length xs"
    by (cases ts1) auto
  from Cons.prems(3) obtain b bs where ts2: "ts2 = b # bs" "length bs = length xs"
    by (cases ts2) auto
  show ?case
  proof (cases "processRespSample a x s1")
    case (Inl f)
    then show ?thesis by (simp add: ts1 ts2)
  next
    case s1': (Inr s1')
    show ?thesis
    proof (cases "processRespSample b x s2")
      case (Inl f)
      then show ?thesis by (simp add: ts1 ts2)
    next
      case s2': (Inr s2')
      from resp_step_view [OF Cons.prems(1) s1' s2'] have v: "phaseView s1' = phaseView s2'" .
      then have c: "currentState s1' = currentState s2'" by (simp add: phaseView_def)
      from Cons.IH [OF v ts1(2) ts2(2)] c s1' s2' show ?thesis
        by (simp add: ts1 ts2)
    qed
  qed
qed

text \<open>
  C4, as the code has it. The phases of a run from reset depend on the readings only:
  two runs over the same readings, with any two clock sequences, give the same phase
  at every call that both complete, so the phase sequence of one is the beginning of
  the other's, and they are equal when both runs complete. The breath rates are the
  same when the clock sequences are the same too; the extractor reads the clock itself
  and computes the rate from it.
\<close>

theorem resp_phases_clock_independent:
  assumes "length ts1 = length xs" and "length ts2 = length xs"
  shows "take (length (respOutputs (zip ts2 xs) respProcInit))
           (map fst (respOutputs (zip ts1 xs) respProcInit))
         = take (length (respOutputs (zip ts1 xs) respProcInit))
             (map fst (respOutputs (zip ts2 xs) respProcInit))
    \<and> (respTrace (zip ts1 xs) respProcInit = Inr o1
         \<and> respTrace (zip ts2 xs) respProcInit = Inr o2 \<longrightarrow> map fst o1 = map fst o2)
    \<and> (ts1 = ts2 \<longrightarrow>
         map snd (respOutputs (zip ts1 xs) respProcInit)
           = map snd (respOutputs (zip ts2 xs) respProcInit))"
proof (intro conjI impI)
  show "take (length (respOutputs (zip ts2 xs) respProcInit))
           (map fst (respOutputs (zip ts1 xs) respProcInit))
         = take (length (respOutputs (zip ts1 xs) respProcInit))
             (map fst (respOutputs (zip ts2 xs) respProcInit))"
    by (rule respOutputs_view [OF refl assms])
next
  assume h: "respTrace (zip ts1 xs) respProcInit = Inr o1
         \<and> respTrace (zip ts2 xs) respProcInit = Inr o2"
  then show "map fst o1 = map fst o2"
    using respTrace_view [OF refl assms, of respProcInit o1 o2] by blast
next
  assume "ts1 = ts2"
  then show "map snd (respOutputs (zip ts1 xs) respProcInit)
           = map snd (respOutputs (zip ts2 xs) respProcInit)"
    by simp
qed

theorem resp_phases_clock_independent_witness:
  "length (map fst slowBreaths) = length (map snd slowBreaths)
   \<and> length evenClock = length (map snd slowBreaths)
   \<and> map fst (respOutputs (zip (map fst slowBreaths) (map snd slowBreaths)) respProcInit)
       = [EXHALE, INHALE, EXHALE, INHALE, EXHALE, INHALE, EXHALE, INHALE,
          EXHALE, INHALE, EXHALE, INHALE, EXHALE, INHALE, EXHALE]
   \<and> map fst (respOutputs (zip evenClock (map snd slowBreaths)) respProcInit)
       = [EXHALE, INHALE, EXHALE, INHALE, EXHALE, INHALE, EXHALE, INHALE,
          EXHALE, INHALE, EXHALE, INHALE, EXHALE, INHALE, EXHALE, INHALE]
   \<and> take (length (respOutputs (zip evenClock (map snd slowBreaths)) respProcInit))
        (map fst (respOutputs (zip (map fst slowBreaths) (map snd slowBreaths)) respProcInit))
       = take (length (respOutputs (zip (map fst slowBreaths) (map snd slowBreaths))
                         respProcInit))
           (map fst (respOutputs (zip evenClock (map snd slowBreaths)) respProcInit))
   \<and> respTrace (zip [1000, 2000, 3000, 4000] [400, 600, 400, 600]) respProcInit
       = Inr [(EXHALE, 0), (INHALE, 0), (EXHALE, 0), (INHALE, 30)]
   \<and> respTrace (zip [1000, 2000, 3000, 5000] [400, 600, 400, 600]) respProcInit
       = Inr [(EXHALE, 0), (INHALE, 0), (EXHALE, 0), (INHALE, 20)]
   \<and> map fst [(EXHALE, 0::int), (INHALE, 0), (EXHALE, 0), (INHALE, 30)]
       = map fst [(EXHALE, 0::int), (INHALE, 0), (EXHALE, 0), (INHALE, 20)]"
proof -
  have l1: "length (map fst slowBreaths) = length (map snd slowBreaths)" by simp
  have l2: "length evenClock = length (map snd slowBreaths)"
    by (simp add: evenClock_def slowBreaths_def)
  have p1: "map fst (respOutputs (zip (map fst slowBreaths) (map snd slowBreaths)) respProcInit)
       = [EXHALE, INHALE, EXHALE, INHALE, EXHALE, INHALE, EXHALE, INHALE,
          EXHALE, INHALE, EXHALE, INHALE, EXHALE, INHALE, EXHALE]"
    by code_simp
  have p2: "map fst (respOutputs (zip evenClock (map snd slowBreaths)) respProcInit)
       = [EXHALE, INHALE, EXHALE, INHALE, EXHALE, INHALE, EXHALE, INHALE,
          EXHALE, INHALE, EXHALE, INHALE, EXHALE, INHALE, EXHALE, INHALE]"
    by code_simp
  have l3: "length [1000, 2000, 3000, 4000 :: int] = length [400, 600, 400, 600 :: int]"
    and l4: "length [1000, 2000, 3000, 5000 :: int] = length [400, 600, 400, 600 :: int]"
    by simp_all
  have r1: "respTrace (zip [1000, 2000, 3000, 4000] [400, 600, 400, 600]) respProcInit
       = Inr [(EXHALE, 0), (INHALE, 0), (EXHALE, 0), (INHALE, 30)]" by code_simp
  have r2: "respTrace (zip [1000, 2000, 3000, 5000] [400, 600, 400, 600]) respProcInit
       = Inr [(EXHALE, 0), (INHALE, 0), (EXHALE, 0), (INHALE, 20)]" by code_simp
  from resp_phases_clock_independent [OF l1 l2]
  have a: "take (length (respOutputs (zip evenClock (map snd slowBreaths)) respProcInit))
        (map fst (respOutputs (zip (map fst slowBreaths) (map snd slowBreaths)) respProcInit))
       = take (length (respOutputs (zip (map fst slowBreaths) (map snd slowBreaths))
                         respProcInit))
           (map fst (respOutputs (zip evenClock (map snd slowBreaths)) respProcInit))"
    by blast
  from resp_phases_clock_independent [OF l3 l4,
      of "[(EXHALE, 0), (INHALE, 0), (EXHALE, 0), (INHALE, 30)]"
         "[(EXHALE, 0), (INHALE, 0), (EXHALE, 0), (INHALE, 20)]"] r1 r2
  have b: "map fst [(EXHALE, 0::int), (INHALE, 0), (EXHALE, 0), (INHALE, 30)]
       = map fst [(EXHALE, 0::int), (INHALE, 0), (EXHALE, 0), (INHALE, 20)]"
    by blast
  from l1 l2 p1 p2 a r1 r2 b show ?thesis by blast
qed

text \<open>
  The same four readings, fed twice from reset with the last call 1000 ms later the
  second time: the rate after the fourth call is 30 in one run and 20 in the other.
\<close>

theorem breath_rate_depends_on_clock_counterexample:
  "map_sum id (map snd)
     (respTrace (zip [1000, 2000, 3000, 4000] [400, 600, 400, 600]) respProcInit)
     = Inr [0, 0, 0, 30]
   \<and> map_sum id (map snd)
     (respTrace (zip [1000, 2000, 3000, 5000] [400, 600, 400, 600]) respProcInit)
     = Inr [0, 0, 0, 20]"
  by code_simp

section \<open>Division by zero in the breath rate\<close>

text \<open>
  C10 at a failing input. Seven admitted breath intervals of 9362 ms add up to 65534,
  which the 16-bit \<^verbatim>\<open>int sum\<close> holds as -2; \<^verbatim>\<open>sum / count\<close> is then 0 and
  \<^verbatim>\<open>60000 / avgBreath\<close> divides by zero. Four such intervals already wrap the sum and
  give a breath rate of -8. The heart-rate computation cannot overflow (ten intervals
  below 2000 stay below 20000): \<open>ecg_never_faults\<close>.
\<close>

theorem breath_rate_divides_by_zero:
  "runResp slowBreaths respProcInit = Inl DivideByZero
   \<and> map_sum id breathIntervals (runResp (take 14 slowBreaths) respProcInit)
       = Inr [9362, 9362, 9362, 9362, 9362, 9362, 0, 0, 0, 0]
   \<and> sumCount [9362, 9362, 9362, 9362, 9362, 9362, 9362, 0, 0, 0] 0 0 = (- 2, 7)
   \<and> map_sum id currentBreathRate (runResp (take 10 slowBreaths) respProcInit) = Inr (- 8)"
  by code_simp

section \<open>Baseline adaptation\<close>

text \<open>
  C7 at two failing inputs; what the code does on a calibrated call is
  \<open>gsr_calibrated_step\<close>: the baseline changes exactly when the clock read inside the
  call is a multiple of 60000. First stream: the call at 60000 ms, with baseline and
  smoothed value both 500, computes \<^verbatim>\<open>baseline * 99\<close> in 16 bits (49500 wraps to
  -16036) and leaves the baseline at -155, where \<open>(99 * 500 + 500) / 100 = 500\<close>. Second
  stream: the samples fall on 59900 and 60100 ms, no call reads a multiple of 60000,
  and the baseline stays 300 across the minute with the smoothed value at 293, where
  the weighted average is 299.
\<close>

theorem gsr_baseline_nudge_failing_inputs:
  "map fst (drop 49 gsrMinuteOverflow) = [59800, 60000]
   \<and> gsrBaseline (runGSR (take 50 gsrMinuteOverflow) gsrProcInit) = 500
   \<and> smoothedValue (runGSR gsrMinuteOverflow gsrProcInit) = 500
   \<and> gsrBaseline (runGSR gsrMinuteOverflow gsrProcInit) = - 155
   \<and> map fst (drop 49 gsrMinuteMissed) = [59900, 60100]
   \<and> gsrBaseline (runGSR (take 50 gsrMinuteMissed) gsrProcInit) = 300
   \<and> smoothedValue (runGSR gsrMinuteMissed gsrProcInit) = 293
   \<and> gsrBaseline (runGSR gsrMinuteMissed gsrProcInit) = 300"
proof -
  have t1: "map fst (drop 49 gsrMinuteOverflow) = [59800, 60000]" by code_simp
  have t2: "map fst (drop 49 gsrMinuteMissed) = [59900, 60100]" by code_simp
  have a: "runGSR (take 50 gsrMinuteOverflow) gsrProcInit
      = \<lparr>gsrBuffer = replicate 30 500, gsrBufferIndex = 20, gsrBaseline = 500,
         smoothedValue = 500, sweatLevel = 0, calibrated = True, calibrationSamples = 50\<rparr>"
    by code_simp
  have b: "runGSR gsrMinuteOverflow gsrProcInit
      = \<lparr>gsrBuffer = replicate 30 500, gsrBufferIndex = 21, gsrBaseline = - 155,
         smoothedValue = 500, sweatLevel = 0, calibrated = True, calibrationSamples = 50\<rparr>"
    by code_simp
  have c: "runGSR (take 50 gsrMinuteMissed) gsrProcInit
      = \<lparr>gsrBuffer = replicate 30 300, gsrBufferIndex = 20, gsrBaseline = 300,
         smoothedValue = 300, sweatLevel = 0, calibrated = True, calibrationSamples = 50\<rparr>"
    by code_simp
  have d: "runGSR gsrMinuteMissed gsrProcInit
      = \<lparr>gsrBuffer = (replicate 30 300)[20 := 100], gsrBufferIndex = 21, gsrBaseline = 300,
         smoothedValue = 293, sweatLevel = 0, calibrated = True, calibrationSamples = 50\<rparr>"
    by code_simp
  show ?thesis unfolding a b c d t1 t2 by simp
qed

section \<open>Storage failure\<close>

lemma spin_no_result: "spin u \<noteq> Some v"
proof
  assume h: "spin u = Some v"
  show False
    by (rule spin.raw_induct [where P = "\<lambda>u v. False", OF _ h]) blast
qed

lemma spin_never_returns: "spin u = None"
  using spin_no_result [of u] by (cases "spin u") auto

lemma waitForButton_pressed: "\<not> high k \<Longrightarrow> waitForButton high k = Some k"
  by (subst waitForButton.simps) simp

lemma ticks_ignore_fileOpens:
  "ecgTick (p\<lparr>fileOpens := b\<rparr>) v = ecgTick p v"
  "respTick (p\<lparr>fileOpens := b\<rparr>) v = respTick p v"
  "gsrTick (p\<lparr>fileOpens := b\<rparr>) v = gsrTick p v"
  "lcdTick (p\<lparr>fileOpens := b\<rparr>) v = lcdTick p v"
  by (simp_all add: ecgTick_def respTick_def gsrTick_def lcdTick_def split: sum.splits)

lemma processors_logData: "processors (logData b stamp v) = processors v"
  by (simp add: processors_def logData_def)

lemma processors_logTick: "processors (logTick p v) = processors v"
  by (simp add: processors_def logTick_def logData_def)

lemma processors_buttonTick: "processors (buttonTick p v) = processors v"
  by (simp add: processors_def buttonTick_def)

lemma loop_processors:
  "map_sum id processors (loop p v)
     = (case ecgTick p v of
          Inl f \<Rightarrow> Inl f
        | Inr v1 \<Rightarrow>
            (case respTick p v1 of
               Inl f \<Rightarrow> Inl f
             | Inr v2 \<Rightarrow> Inr (processors (lcdTick p (gsrTick p v2)))))"
  by (simp add: loop_def processors_buttonTick processors_logTick split: sum.splits)

text \<open>
  C8, as the code has it. If \<^verbatim>\<open>SD.begin\<close> fails, start-up enters \<^verbatim>\<open>while(1);\<close> and never
  returns: the main loop, and with it all signal processing, never starts. With a
  working card and the button pressed, start-up returns the reset system. In the main
  loop a log file that does not open costs the row only: the three processors after
  the pass (or the fault of the pass) are the same as with a file that opens, and
  \<^verbatim>\<open>logData\<close> changes nothing but the serial output, where it prints the error.
\<close>

theorem storage_failure_halts_startup_not_loop:
  "setup_sketch False high startMillis = None
   \<and> (\<not> high 0 \<longrightarrow>
        setup_sketch True high startMillis = Some (vestInit\<lparr>sessionStartTime := startMillis\<rparr>))
   \<and> map_sum id processors (loop (p\<lparr>fileOpens := False\<rparr>) v)
       = map_sum id processors (loop (p\<lparr>fileOpens := True\<rparr>) v)
   \<and> logData False stamp v = v\<lparr>serialOut := serialOut v @ [OpenError]\<rparr>
   \<and> processors (logData False stamp v) = processors v"
proof (intro conjI impI)
  show "setup_sketch False high startMillis = None"
    by (simp add: setup_sketch_def spin_never_returns)
  show "setup_sketch True high startMillis = Some (vestInit\<lparr>sessionStartTime := startMillis\<rparr>)"
    if "\<not> high 0"
    using that waitForButton_pressed [of high 0] by (simp add: setup_sketch_def)
  show "map_sum id processors (loop (p\<lparr>fileOpens := False\<rparr>) v)
       = map_sum id processors (loop (p\<lparr>fileOpens := True\<rparr>) v)"
    by (simp only: loop_processors ticks_ignore_fileOpens)
  show "logData False stamp v = v\<lparr>serialOut := serialOut v @ [OpenError]\<rparr>"
    by (simp add: logData_def)
  show "processors (logData False stamp v) = processors v"
    by (rule processors_logData)
qed

theorem storage_failure_halts_startup_not_loop_witness:
  "\<not> pressedAtOnce 0
   \<and> setup_sketch False pressedAtOnce 5000 = None
   \<and> setup_sketch True pressedAtOnce 5000 = Some (vestInit\<lparr>sessionStartTime := 5000\<rparr>)
   \<and> map_sum id processors (loop (firstPass\<lparr>fileOpens := False\<rparr>) vestInit)
       = map_sum id processors (loop (firstPass\<lparr>fileOpens := True\<rparr>) vestInit)
   \<and> processors (logData False 5001 vestInit) = processors vestInit"
proof -
  have h: "\<not> pressedAtOnce 0" by (simp add: pressedAtOnce_def)
  from h storage_failure_halts_startup_not_loop [of pressedAtOnce 5000 firstPass vestInit 5001]
  show ?thesis by blast
qed

text \<open>
  A start-up with a failing card and the button already pressed never returns, while
  the same start-up with a working card does.
\<close>

theorem sd_failure_halts_counterexample:
  "setup_sketch False pressedAtOnce 5000 = None
   \<and> setup_sketch True pressedAtOnce 5000 = Some (vestInit\<lparr>sessionStartTime := 5000\<rparr>)"
  by (simp add: setup_sketch_def spin_never_returns waitForButton_pressed pressedAtOnce_def)

lemma first_pass_with_failed_open:
  "map_sum id serialOut (loop firstPass vestInit) = Inr [OpenError]
   \<and> map_sum id vitalsCsv (loop firstPass vestInit) = Inr []
   \<and> map_sum id (\<lambda>v. inPeak (ecgProc v)) (loop firstPass vestInit) = Inr True
   \<and> map_sum id (\<lambda>v. currentState (respProc v)) (loop firstPass vestInit) = Inr EXHALE
   \<and> map_sum id (\<lambda>v. smoothedValue (gsrProc v)) (loop firstPass vestInit) = Inr 10"
  by code_simp

end
